theory Spec2Isabelle
  imports
    Complex_Main
    "HOL-Library.Char_ord"
    "HOL-Library.List_Lexorder"
    "HOL-Library.Product_Lexorder"
begin

section \<open>The employee directory of \<^verbatim>\<open>src/main.py\<close>\<close>

text \<open>
  The program is a command line tool over one SQLite table. The embedding keeps its
  structure: the dataclass \<^verbatim>\<open>Employee\<close> is a record, the database file is a value
  that every operation takes and returns, an exception is the left injection of a sum,
  and everything the program reads from outside (the current date, the random
  generator, the wall clock, the success of the connection) is an explicit input.
  Python strings are \<^typ>\<open>string\<close>: lists of bytes, compared as SQLite's \<^verbatim>\<open>BINARY\<close>
  collation and Python compare ASCII text.
\<close>

subsection \<open>Exceptions\<close>

datatype error = ValueError | OperationalError | ZeroDivisionError | RuntimeError

subsection \<open>Calendar dates of the standard library\<close>

record date =
  year :: int
  month :: int
  day :: int

text \<open>\<^verbatim>\<open>datetime\<close>'s leap year rule and month lengths.\<close>

definition is_leap :: "int \<Rightarrow> bool" where
  "is_leap y = (y mod 4 = 0 \<and> (y mod 100 \<noteq> 0 \<or> y mod 400 = 0))"

definition days_in_month :: "int \<Rightarrow> int \<Rightarrow> int" where
  "days_in_month y m =
     (if m = 2 then (if is_leap y then 29 else 28)
      else if m = 4 \<or> m = 6 \<or> m = 9 \<or> m = 11 then 30 else 31)"

text \<open>
  The constructor \<^verbatim>\<open>date(year, month, day)\<close>: a \<^verbatim>\<open>ValueError\<close> unless the year is
  in \<open>1..9999\<close>, the month in \<open>1..12\<close> and the day exists in that month.
\<close>

definition mk_date :: "int \<Rightarrow> int \<Rightarrow> int \<Rightarrow> error + date" where
  "mk_date y m d =
     (if 1 \<le> y \<and> y \<le> 9999 \<and> 1 \<le> m \<and> m \<le> 12 \<and> 1 \<le> d \<and> d \<le> days_in_month y m
      then Inr \<lparr>year = y, month = m, day = d\<rparr>
      else Inl ValueError)"

subsection \<open>\<^verbatim>\<open>datetime.strptime(s, "%Y-%m-%d")\<close>\<close>

text \<open>
  The library turns the format into the regular expression
  \<^verbatim>\<open>(?P<Y>\d\d\d\d)-(?P<m>1[0-2]|0[1-9]|[1-9])-(?P<d>3[01]|[12]\d|0[1-9]|[1-9]| [1-9])\<close>,
  matches it at the start of the string, rejects the string when text remains behind
  the match, converts the three groups with \<^verbatim>\<open>int\<close> and builds the date. A
  backtracking matcher is a function from the input to the list of its matches (the
  matched text and the rest of the input), in the order the engine tries them; the
  engine's answer is the head of that list. Strings are byte strings and \<^verbatim>\<open>\d\<close> is an
  ASCII digit here: a year written in other Unicode decimal digits, which Python reads as
  well, is rejected by this model, so nothing is claimed about such strings.
\<close>

definition digit :: "char \<Rightarrow> bool" where
  "digit c = (CHR ''0'' \<le> c \<and> c \<le> CHR ''9'')"

definition between :: "char \<Rightarrow> char \<Rightarrow> char \<Rightarrow> bool" where
  "between lo hi c = (lo \<le> c \<and> c \<le> hi)"

definition digit_val :: "char \<Rightarrow> int" where
  "digit_val c = int (of_char c) - 48"

text \<open>\<^verbatim>\<open>int(s)\<close> on a matched group: blanks in front are skipped, the digits are decimal.\<close>

definition py_int :: "string \<Rightarrow> int" where
  "py_int s = foldl (\<lambda>a c. 10 * a + digit_val c) 0 (dropWhile (\<lambda>c. c = CHR '' '') s)"

fun re_chars :: "(char \<Rightarrow> bool) list \<Rightarrow> string \<Rightarrow> (string \<times> string) list" where
  "re_chars [] s = [([], s)]"
| "re_chars (p # ps) [] = []"
| "re_chars (p # ps) (c # cs) =
     (if p c then map (\<lambda>(m, r). (c # m, r)) (re_chars ps cs) else [])"

definition re_alt :: "(char \<Rightarrow> bool) list list \<Rightarrow> string \<Rightarrow> (string \<times> string) list" where
  "re_alt alts s = concat (map (\<lambda>a. re_chars a s) alts)"

definition re_Y :: "string \<Rightarrow> (string \<times> string) list" where
  "re_Y = re_chars [digit, digit, digit, digit]"

definition re_dash :: "string \<Rightarrow> (string \<times> string) list" where
  "re_dash = re_chars [(=) CHR ''-'']"

definition re_m :: "string \<Rightarrow> (string \<times> string) list" where
  "re_m = re_alt
     [[(=) CHR ''1'', between CHR ''0'' CHR ''2''],
      [(=) CHR ''0'', between CHR ''1'' CHR ''9''],
      [between CHR ''1'' CHR ''9'']]"

definition re_d :: "string \<Rightarrow> (string \<times> string) list" where
  "re_d = re_alt
     [[(=) CHR ''3'', between CHR ''0'' CHR ''1''],
      [between CHR ''1'' CHR ''2'', digit],
      [(=) CHR ''0'', between CHR ''1'' CHR ''9''],
      [between CHR ''1'' CHR ''9''],
      [(=) CHR '' '', between CHR ''1'' CHR ''9'']]"

definition format_regex :: "string \<Rightarrow> (string \<times> string \<times> string \<times> string) list" where
  "format_regex s =
     [(Y, m, d, r).
        (Y, s1) \<leftarrow> re_Y s, (x, s2) \<leftarrow> re_dash s1, (m, s3) \<leftarrow> re_m s2,
        (z, s4) \<leftarrow> re_dash s3, (d, r) \<leftarrow> re_d s4]"

definition strptime :: "string \<Rightarrow> error + date" where
  "strptime data_string =
     (case format_regex data_string of
        [] \<Rightarrow> Inl ValueError
      | (Y, m, d, r) # others \<Rightarrow>
          if r \<noteq> [] then Inl ValueError
          else mk_date (py_int Y) (py_int m) (py_int d))"

subsection \<open>The dataclass \<^verbatim>\<open>Employee\<close>\<close>

record employee =
  full_name :: string
  birth_date :: string
  gender :: string

text \<open>
  \<^verbatim>\<open>Employee.calculate_age\<close>; \<^verbatim>\<open>date.today()\<close> is the argument \<open>today\<close>. The
  comparison of the two pairs is Python's tuple comparison, the lexicographic order.
\<close>

definition calculate_age :: "date \<Rightarrow> employee \<Rightarrow> error + int" where
  "calculate_age today e =
     (case strptime (birth_date e) of
        Inl err \<Rightarrow> Inl err
      | Inr bd \<Rightarrow>
          (let age = year today - year bd
           in Inr (if (month today, day today) < (month bd, day bd) then age - 1 else age)))"

subsection \<open>Python's text of an integer\<close>

definition digit_char :: "nat \<Rightarrow> char" where
  "digit_char n = char_of (48 + n)"

function digits :: "nat \<Rightarrow> string" where
  "digits n = (if n < 10 then [digit_char n] else digits (n div 10) @ [digit_char (n mod 10)])"
  by pat_completeness auto
termination
  by (relation "measure (\<lambda>n. n)") auto

declare digits.simps [simp del]

text \<open>\<^verbatim>\<open>str(i)\<close>, and \<^verbatim>\<open>format(i, "02d")\<close>: zeros in front up to the width two.\<close>

definition str_int :: "int \<Rightarrow> string" where
  "str_int i = (if i < 0 then CHR ''-'' # digits (nat (- i)) else digits (nat i))"

definition fmt_02d :: "int \<Rightarrow> string" where
  "fmt_02d i = (let s = str_int i in replicate (2 - length s) CHR ''0'' @ s)"

subsection \<open>The database file\<close>

text \<open>
  The file holds at most the table \<^verbatim>\<open>employees\<close>: its rows in insertion order, each
  with the id that \<^verbatim>\<open>AUTOINCREMENT\<close> gave it, the counter of the last id given, and
  whether the index \<^verbatim>\<open>idx_gender_lastname\<close> exists. An index belongs to its table, so
  a file without the table has no index. Every statement of the program that writes
  is followed by \<^verbatim>\<open>commit()\<close> before anything else can fail, so a write is applied
  where the statement runs.
\<close>

record employees_table =
  table_rows :: "(int \<times> employee) list"
  sqlite_sequence :: int
  idx_gender_lastname :: bool

type_synonym database = "employees_table option"

datatype statement =
    CREATE_TABLE
  | INSERT employee
  | INSERT_MANY "employee list"
  | SELECT_UNIQUE
  | SELECT_MALE_F
  | CREATE_INDEX

definition empty_table :: employees_table where
  "empty_table = \<lparr>table_rows = [], sqlite_sequence = 0, idx_gender_lastname = False\<rparr>"

definition insert_row :: "employees_table \<Rightarrow> employee \<Rightarrow> employees_table" where
  "insert_row t e =
     t\<lparr>table_rows := table_rows t @ [(sqlite_sequence t + 1, e)],
       sqlite_sequence := sqlite_sequence t + 1\<rparr>"

text \<open>
  \<^verbatim>\<open>SELECT full_name, birth_date, gender FROM employees GROUP BY full_name, birth_date
  ORDER BY full_name\<close>: one row for each pair of name and birth date among the stored
  rows, in the order of the grouping key (its first component is the name, compared
  byte by byte; SQL leaves the order of rows with the same name open, and the engine
  emits its groups in key order). The column \<^verbatim>\<open>gender\<close> is neither grouped nor
  aggregated: the engine takes it from a row of the group that it chooses, here the row
  the input \<open>pick\<close> points at.
\<close>

definition group_key :: "int \<times> employee \<Rightarrow> string \<times> string" where
  "group_key r = (full_name (snd r), birth_date (snd r))"

definition select_unique ::
  "((int \<times> employee) list \<Rightarrow> nat) \<Rightarrow> (int \<times> employee) list \<Rightarrow> employee list" where
  "select_unique pick rs =
     map (\<lambda>k. let g = filter (\<lambda>r. group_key r = k) rs
               in \<lparr>full_name = fst k, birth_date = snd k,
                   gender = gender (snd (g ! (pick g mod length g)))\<rparr>)
       (sort (remdups (map group_key rs)))"

text \<open>
  \<^verbatim>\<open>WHERE gender = 'Male' AND full_name LIKE 'F%'\<close>; SQLite's \<^verbatim>\<open>LIKE\<close> ignores the
  case of ASCII letters.
\<close>

definition like_F :: "string \<Rightarrow> bool" where
  "like_F s = (case s of [] \<Rightarrow> False | c # cs \<Rightarrow> c = CHR ''F'' \<or> c = CHR ''f'')"

definition select_male_f :: "(int \<times> employee) list \<Rightarrow> employee list" where
  "select_male_f rs = filter (\<lambda>e. gender e = ''Male'' \<and> like_F (full_name e)) (map snd rs)"

text \<open>
  One statement on the file: the rows it returns and the file afterwards, or
  \<^verbatim>\<open>sqlite3.OperationalError\<close> (no such table) for every statement but
  \<^verbatim>\<open>CREATE TABLE IF NOT EXISTS\<close> when the table is missing.
\<close>

fun run_statement ::
  "((int \<times> employee) list \<Rightarrow> nat) \<Rightarrow> statement \<Rightarrow> database \<Rightarrow> error + (employee list \<times> database)" where
  "run_statement pick CREATE_TABLE None = Inr ([], Some empty_table)"
| "run_statement pick CREATE_TABLE (Some t) = Inr ([], Some t)"
| "run_statement pick st None = Inl OperationalError"
| "run_statement pick (INSERT e) (Some t) = Inr ([], Some (insert_row t e))"
| "run_statement pick (INSERT_MANY es) (Some t) = Inr ([], Some (foldl insert_row t es))"
| "run_statement pick SELECT_UNIQUE (Some t) = Inr (select_unique pick (table_rows t), Some t)"
| "run_statement pick SELECT_MALE_F (Some t) = Inr (select_male_f (table_rows t), Some t)"
| "run_statement pick CREATE_INDEX (Some t) = Inr ([], Some (t\<lparr>idx_gender_lastname := True\<rparr>))"

subsection \<open>The world of one run\<close>

text \<open>
  What a run reads and writes: the database file, the random generator (the numbers
  it will deliver), the wall clock (the readings it will deliver) and the trace of what
  the program did, in order. A generator or clock whose list has run out delivers 0.
  The readings of the clock are real numbers: of the floats of the program only their
  differences, their quotient and the test of the divisor against zero are used, and a
  line on standard output that shows such a number keeps the number instead of its
  text.
\<close>

datatype event =
    Connect
  | Execute statement
  | Commit
  | Stdout string
  | Stdout_execution_time real
  | Stdout_improvement real real
  | Close

record world =
  db :: database
  rng :: "nat list"
  clock :: "real list"
  trace :: "event list"

record env =
  date_today :: date
  connect_ok :: bool
  bare_row :: "(int \<times> employee) list \<Rightarrow> nat"

definition emit :: "event \<Rightarrow> world \<Rightarrow> world" where
  "emit ev w = w\<lparr>trace := trace w @ [ev]\<rparr>"

definition py_print :: "string \<Rightarrow> world \<Rightarrow> world" where
  "py_print s = emit (Stdout s)"

definition stdout_lines :: "event list \<Rightarrow> string list" where
  "stdout_lines evs = concat (map (\<lambda>ev. case ev of Stdout s \<Rightarrow> [s] | _ \<Rightarrow> []) evs)"

text \<open>\<^verbatim>\<open>cursor.execute\<close> and \<^verbatim>\<open>cursor.executemany\<close>, with \<^verbatim>\<open>fetchall\<close>.\<close>

definition execute :: "env \<Rightarrow> statement \<Rightarrow> world \<Rightarrow> (error + employee list) \<times> world" where
  "execute env st w =
     (case run_statement (bare_row env) st (db w) of
        Inl err \<Rightarrow> (Inl err, emit (Execute st) w)
      | Inr (fetched, d) \<Rightarrow> (Inr fetched, (emit (Execute st) w)\<lparr>db := d\<rparr>))"

definition commit :: "world \<Rightarrow> world" where
  "commit = emit Commit"

text \<open>\<^verbatim>\<open>time.time()\<close>: the next reading of the clock.\<close>

definition time_time :: "world \<Rightarrow> real \<times> world" where
  "time_time w = (case clock w of [] \<Rightarrow> (0, w) | t # ts \<Rightarrow> (t, w\<lparr>clock := ts\<rparr>))"

text \<open>
  \<^verbatim>\<open>random.choice(seq)\<close> and \<^verbatim>\<open>random.randint(a, b)\<close>: the next number of the
  generator, reduced to an index of the sequence and to an offset in the interval.
\<close>

definition next_random :: "nat list \<Rightarrow> nat \<times> nat list" where
  "next_random r = (case r of [] \<Rightarrow> (0, []) | x # r' \<Rightarrow> (x, r'))"

definition choice :: "'a list \<Rightarrow> nat list \<Rightarrow> 'a \<times> nat list" where
  "choice seq r = (let (x, r') = next_random r in (seq ! (x mod length seq), r'))"

definition randint :: "int \<Rightarrow> int \<Rightarrow> nat list \<Rightarrow> int \<times> nat list" where
  "randint a b r = (let (x, r') = next_random r in (a + int (x mod nat (b - a + 1)), r'))"

subsection \<open>The class \<^verbatim>\<open>EmployeeDirectory\<close>\<close>

definition create_table :: "env \<Rightarrow> world \<Rightarrow> (error + unit) \<times> world" where
  "create_table env w =
     (case execute env CREATE_TABLE w of
        (Inl err, w1) \<Rightarrow> (Inl err, w1)
      | (Inr fetched, w1) \<Rightarrow>
          (Inr (), py_print ''Table 'employees' created successfully.'' (commit w1)))"

definition add_employee ::
  "env \<Rightarrow> string \<Rightarrow> string \<Rightarrow> string \<Rightarrow> world \<Rightarrow> (error + unit) \<times> world" where
  "add_employee env name born sex w =
     (let employee = \<lparr>full_name = name, birth_date = born, gender = sex\<rparr>
      in case execute env (INSERT employee) w of
           (Inl err, w1) \<Rightarrow> (Inl err, w1)
         | (Inr fetched, w1) \<Rightarrow>
             (Inr (), py_print (''Employee '' @ name @ '' added successfully.'') (commit w1)))"

definition added_message :: "nat \<Rightarrow> string" where
  "added_message n = ''Added '' @ str_int (int n) @ '' employees in batch.''"

definition batch_add_employees :: "env \<Rightarrow> employee list \<Rightarrow> world \<Rightarrow> (error + unit) \<times> world" where
  "batch_add_employees env employees w =
     (case execute env (INSERT_MANY employees) w of
        (Inl err, w1) \<Rightarrow> (Inl err, w1)
      | (Inr fetched, w1) \<Rightarrow>
          (Inr (), py_print (added_message (length employees)) (commit w1)))"

text \<open>
  The f-string that \<^verbatim>\<open>get_all_unique_employees\<close> prints for a row, and its loop over
  the fetched rows.
\<close>

definition listing_line :: "employee \<Rightarrow> int \<Rightarrow> string" where
  "listing_line row age =
     ''Name: '' @ full_name row @ '', Birth Date: '' @ birth_date row
       @ '', Gender: '' @ gender row @ '', Age: '' @ str_int age"

fun list_rows :: "date \<Rightarrow> employee list \<Rightarrow> world \<Rightarrow> (error + unit) \<times> world" where
  "list_rows today [] w = (Inr (), w)"
| "list_rows today (row # rows) w =
     (case calculate_age today row of
        Inl err \<Rightarrow> (Inl err, w)
      | Inr age \<Rightarrow> list_rows today rows (py_print (listing_line row age) w))"

definition get_all_unique_employees :: "env \<Rightarrow> world \<Rightarrow> (error + unit) \<times> world" where
  "get_all_unique_employees env w =
     (case execute env SELECT_UNIQUE w of
        (Inl err, w1) \<Rightarrow> (Inl err, w1)
      | (Inr rows, w1) \<Rightarrow> list_rows (date_today env) rows w1)"

subsection \<open>\<^verbatim>\<open>generate_random_employees\<close>\<close>

definition first_names_male :: "string list" where
  "first_names_male =
     [''James'', ''John'', ''Robert'', ''Michael'', ''William'',
      ''David'', ''Richard'', ''Joseph'', ''Thomas'', ''Charles'']"

definition first_names_female :: "string list" where
  "first_names_female =
     [''Mary'', ''Patricia'', ''Jennifer'', ''Linda'', ''Elizabeth'',
      ''Barbara'', ''Susan'', ''Jessica'', ''Sarah'', ''Karen'']"

definition last_names :: "string list" where
  "last_names =
     [''Smith'', ''Johnson'', ''Williams'', ''Brown'', ''Jones'',
      ''Miller'', ''Davis'', ''Garcia'', ''Rodriguez'', ''Wilson'']"

definition middle_names :: "string list" where
  "middle_names = [''A.'', ''B.'', ''C.'', ''D.'', ''E.'']"

definition f_suffixes :: "string list" where
  "f_suffixes = [''isher'', ''ord'', ''letcher'', ''ranklin'', ''erguson'']"

text \<open>The birth date of both loops: three draws and the f-string.\<close>

definition random_birth_date :: "nat list \<Rightarrow> string \<times> nat list" where
  "random_birth_date r =
     (let (y, r1) = randint 1950 2005 r;
          (m, r2) = randint 1 12 r1;
          (d, r3) = randint 1 28 r2
      in (str_int y @ ''-'' @ fmt_02d m @ ''-'' @ fmt_02d d, r3))"

text \<open>The body of the first loop up to the \<^verbatim>\<open>append\<close>.\<close>

definition random_employee :: "nat list \<Rightarrow> employee \<times> nat list" where
  "random_employee r =
     (let (sex, r1) = choice [''Male'', ''Female''] r;
          (first_name, r2) =
             (if sex = ''Male'' then choice first_names_male r1 else choice first_names_female r1);
          (last_name, r3) = choice last_names r2;
          (middle_name, r4) = choice middle_names r3;
          (born, r5) = random_birth_date r4
      in (\<lparr>full_name = last_name @ '' '' @ first_name @ '' '' @ middle_name,
           birth_date = born, gender = sex\<rparr>, r5))"

text \<open>The body of the second loop.\<close>

definition random_f_employee :: "nat list \<Rightarrow> employee \<times> nat list" where
  "random_f_employee r =
     (let (first_name, r1) = choice first_names_male r;
          (suffix, r2) = choice f_suffixes r1;
          last_name = ''F'' @ suffix;
          (middle_name, r3) = choice middle_names r2;
          (born, r4) = random_birth_date r3
      in (\<lparr>full_name = last_name @ '' '' @ first_name @ '' '' @ middle_name,
           birth_date = born, gender = ''Male''\<rparr>, r4))"

text \<open>
  \<^verbatim>\<open>for i in range(count)\<close> with the buffer \<open>employees\<close>; the first argument counts the
  iterations that remain.
\<close>

fun main_loop ::
  "env \<Rightarrow> nat \<Rightarrow> employee list \<Rightarrow> world \<Rightarrow> (error + employee list) \<times> world" where
  "main_loop env 0 employees w = (Inr employees, w)"
| "main_loop env (Suc n) employees w =
     (let (e, r) = random_employee (rng w);
          w1 = w\<lparr>rng := r\<rparr>;
          employees1 = employees @ [e]
      in if length employees1 \<ge> 10000
         then (case batch_add_employees env employees1 w1 of
                 (Inl err, w2) \<Rightarrow> (Inl err, w2)
               | (Inr u, w2) \<Rightarrow> main_loop env n [] w2)
         else main_loop env n employees1 w1)"

text \<open>\<^verbatim>\<open>for i in range(100)\<close> with the buffer \<open>f_employees\<close>.\<close>

fun f_loop :: "nat \<Rightarrow> employee list \<Rightarrow> nat list \<Rightarrow> employee list \<times> nat list" where
  "f_loop 0 f_employees r = (f_employees, r)"
| "f_loop (Suc n) f_employees r =
     (let (e, r1) = random_f_employee r in f_loop n (f_employees @ [e]) r1)"

definition generate_random_employees :: "env \<Rightarrow> int \<Rightarrow> world \<Rightarrow> (error + unit) \<times> world" where
  "generate_random_employees env count w =
     (case main_loop env (nat count) [] w of
        (Inl err, w1) \<Rightarrow> (Inl err, w1)
      | (Inr employees, w1) \<Rightarrow>
          (case (if employees \<noteq> [] then batch_add_employees env employees w1 else (Inr (), w1)) of
             (Inl err, w2) \<Rightarrow> (Inl err, w2)
           | (Inr u, w2) \<Rightarrow>
               (let (f_employees, r) = f_loop 100 [] (rng w2)
                in case batch_add_employees env f_employees (w2\<lparr>rng := r\<rparr>) of
                     (Inl err, w3) \<Rightarrow> (Inl err, w3)
                   | (Inr u', w3) \<Rightarrow>
                       (Inr (), py_print ''Finished generating random employees.'' w3))))"

subsection \<open>Search, index and \<^verbatim>\<open>close\<close>\<close>

definition found_message :: "nat \<Rightarrow> string" where
  "found_message n =
     ''Found '' @ str_int (int n) @ '' male employees with last names starting with 'F''
       @ [CHR 0x27]"

definition search_male_f_lastname :: "env \<Rightarrow> world \<Rightarrow> (error + real) \<times> world" where
  "search_male_f_lastname env w =
     (let (start_time, w1) = time_time w
      in case execute env SELECT_MALE_F w1 of
           (Inl err, w2) \<Rightarrow> (Inl err, w2)
         | (Inr rows, w2) \<Rightarrow>
             (let (end_time, w3) = time_time w2;
                  execution_time = end_time - start_time;
                  w4 = py_print (found_message (length rows)) w3;
                  w5 = emit (Stdout_execution_time execution_time) w4
              in (Inr execution_time, w5)))"

definition optimize_database :: "env \<Rightarrow> world \<Rightarrow> (error + unit) \<times> world" where
  "optimize_database env w =
     (case execute env CREATE_INDEX w of
        (Inl err, w1) \<Rightarrow> (Inl err, w1)
      | (Inr fetched, w1) \<Rightarrow>
          (Inr (), py_print ''Database optimized with index on gender and full_name.'' (commit w1)))"

definition close :: "world \<Rightarrow> world" where
  "close = emit Close"

subsection \<open>\<^verbatim>\<open>main\<close>\<close>

definition usage :: "string list" where
  "usage =
     [''Usage: python employee_directory.py <mode> [arguments]'',
      ''Modes:'',
      ''  1 - Create employee table'',
      ''  2 - Add employee (requires full_name, birth_date, gender)'',
      ''  3 - List all unique employees sorted by name'',
      ''  4 - Generate random employees'',
      ''  5 - Search male employees with last names starting with F'',
      ''  6 - Optimize database'']"

definition usage_mode_2 :: string where
  "usage_mode_2 =
     ''Usage: python employee_directory.py 2 '' @ [CHR 0x22] @ ''Full Name'' @ [CHR 0x22]
       @ '' '' @ [CHR 0x22] @ ''YYYY-MM-DD'' @ [CHR 0x22] @ '' '' @ [CHR 0x22] @ ''Gender''
       @ [CHR 0x22]"

text \<open>
  The last two statements of mode 6: the f-string computes the difference and then the
  quotient of the two floats, and the quotient raises \<^verbatim>\<open>ZeroDivisionError\<close> on a zero
  divisor before anything is printed.
\<close>

definition report_improvement :: "real \<Rightarrow> real \<Rightarrow> world \<Rightarrow> (error + unit) \<times> world" where
  "report_improvement before_time after_time w =
     (if after_time = 0 then (Inl ZeroDivisionError, w)
      else (Inr (), emit (Stdout_improvement (before_time - after_time)
                            (before_time / after_time)) w))"

text \<open>The body of the \<^verbatim>\<open>try\<close> statement.\<close>

definition main_try :: "env \<Rightarrow> string list \<Rightarrow> world \<Rightarrow> (error + unit) \<times> world" where
  "main_try env argv w =
     (let mode = argv ! 1
      in if mode = ''1'' then create_table env w
         else if mode = ''2'' then
           (if length argv < 5 then (Inr (), py_print usage_mode_2 w)
            else add_employee env (argv ! 2) (argv ! 3) (argv ! 4) w)
         else if mode = ''3'' then get_all_unique_employees env w
         else if mode = ''4'' then generate_random_employees env 1000000 w
         else if mode = ''5'' then
           (case search_male_f_lastname env w of
              (Inl err, w1) \<Rightarrow> (Inl err, w1)
            | (Inr t, w1) \<Rightarrow> (Inr (), w1))
         else if mode = ''6'' then
           (case optimize_database env w of
              (Inl err, w1) \<Rightarrow> (Inl err, w1)
            | (Inr u, w1) \<Rightarrow>
                (let w2 = py_print ''Running performance test before and after optimization...'' w1;
                     w3 = py_print (CHR 0x0A # ''Before optimization:'') w2
                 in case search_male_f_lastname env w3 of
                      (Inl err, w4) \<Rightarrow> (Inl err, w4)
                    | (Inr before_time, w4) \<Rightarrow>
                        (let w5 = py_print (CHR 0x0A # ''After optimization:'') w4
                         in case search_male_f_lastname env w5 of
                              (Inl err, w6) \<Rightarrow> (Inl err, w6)
                            | (Inr after_time, w6) \<Rightarrow>
                                report_improvement before_time after_time w6)))
         else (Inr (), py_print (''Unknown mode: '' @ mode) w))"

text \<open>
  \<^verbatim>\<open>main\<close>: without a mode the usage text and nothing else; otherwise the connection
  (a failure is the \<^verbatim>\<open>RuntimeError\<close> of the constructor, raised before the \<^verbatim>\<open>try\<close>),
  the body, and \<^verbatim>\<open>directory.close()\<close> in the \<^verbatim>\<open>finally\<close> clause.
\<close>

definition main :: "env \<Rightarrow> string list \<Rightarrow> world \<Rightarrow> (error + unit) \<times> world" where
  "main env argv w =
     (if length argv < 2 then (Inr (), foldl (\<lambda>w' s. py_print s w') w usage)
      else if \<not> connect_ok env then (Inl RuntimeError, w)
      else (let (res, w1) = main_try env argv (emit Connect w) in (res, close w1)))"

subsection \<open>Whole years between two dates\<close>

text \<open>
  The conventional age, stated without the program's formula: the \<open>k\<close>-th birthday is
  the birth date moved \<open>k\<close> years on, it is reached when it is not after today in the
  order of the calendar, and the age is the number of the last birthday reached.
\<close>

definition birthday_reached :: "date \<Rightarrow> date \<Rightarrow> int \<Rightarrow> bool" where
  "birthday_reached bd t k = ((year bd + k, month bd, day bd) \<le> (year t, month t, day t))"

definition whole_years_elapsed :: "date \<Rightarrow> date \<Rightarrow> int \<Rightarrow> bool" where
  "whole_years_elapsed bd t k = (birthday_reached bd t k \<and> \<not> birthday_reached bd t (k + 1))"

subsection \<open>Reading a trace\<close>

text \<open>The events a run added to the trace, and the statements among a list of events.\<close>

definition new_events :: "world \<Rightarrow> world \<Rightarrow> event list" where
  "new_events w w' = drop (length (trace w)) (trace w')"

definition executed :: "event list \<Rightarrow> statement list" where
  "executed evs = concat (map (\<lambda>ev. case ev of Execute st \<Rightarrow> [st] | _ \<Rightarrow> []) evs)"

text \<open>Python's \<^verbatim>\<open>p in s\<close> on strings.\<close>

fun contains :: "string \<Rightarrow> string \<Rightarrow> bool" where
  "contains [] p = (p = [])"
| "contains (c # cs) p = (take (length p) (c # cs) = p \<or> contains cs p)"

subsection \<open>Concrete inputs\<close>

definition first_row :: "(int \<times> employee) list \<Rightarrow> nat" where
  "first_row g = 0"

definition example_env :: env where
  "example_env =
     \<lparr>date_today = \<lparr>year = 2026, month = 11, day = 3\<rparr>, connect_ok = True, bare_row = first_row\<rparr>"

definition fresh_world :: world where
  "fresh_world = \<lparr>db = None, rng = [], clock = [], trace = []\<rparr>"

definition created_world :: world where
  "created_world =
     \<lparr>db = Some empty_table, rng = [3, 1, 4, 1, 5, 9, 2, 6, 5, 3, 5, 8, 9, 7],
      clock = [10, 12, 15, 15], trace = []\<rparr>"


definition unparsed_added :: world where
  "unparsed_added =
     snd (add_employee example_env ''Ford Henry A.'' ''unknown'' ''Female''
            (snd (add_employee example_env ''Ford Henry A.'' ''unknown'' ''Male'' created_world)))"

definition ford_twice :: world where
  "ford_twice =
     snd (add_employee example_env ''Ford Henry A.'' ''1980-05-15'' ''Female''
            (snd (add_employee example_env ''Ford Henry A.'' ''1980-05-15'' ''Male''
                    created_world)))"

definition three_employees :: "employee list" where
  "three_employees =
     [\<lparr>full_name = ''Smith John B.'', birth_date = ''1990-01-02'', gender = ''Male''\<rparr>,
      \<lparr>full_name = ''Ford Henry A.'', birth_date = ''1980-05-15'', gender = ''Male''\<rparr>,
      \<lparr>full_name = ''Ford Henry A.'', birth_date = ''1981-05-15'', gender = ''Female''\<rparr>]"

definition three_added :: world where
  "three_added = snd (batch_add_employees example_env three_employees created_world)"

subsection \<open>Steps that do not close the connection\<close>

text \<open>From \<open>w\<close> to \<open>w'\<close> the trace only grew, and by no \<open>Close\<close> event.\<close>

definition quiet_step :: "world \<Rightarrow> world \<Rightarrow> bool" where
  "quiet_step w w' = (\<exists>evs. trace w' = trace w @ evs \<and> Close \<notin> set evs)"

subsection \<open>The end-to-end scenario\<close>

text \<open>
  Mode 1, then mode 2 for Henry Ford, then mode 3, each a run of its own on the file
  the run before left, starting without a file, on 3 November 2026.
\<close>

definition ford :: employee where
  "ford = \<lparr>full_name = ''Ford Henry A.'', birth_date = ''1980-05-15'', gender = ''Male''\<rparr>"

definition scenario_created :: world where
  "scenario_created = snd (main example_env [''employee_directory.py'', ''1''] fresh_world)"

definition scenario_added :: world where
  "scenario_added =
     snd (main example_env
            [''employee_directory.py'', ''2'', ''Ford Henry A.'', ''1980-05-15'', ''Male'']
            scenario_created)"

definition scenario_listed :: world where
  "scenario_listed = snd (main example_env [''employee_directory.py'', ''3''] scenario_added)"

subsection \<open>What the generation is expected to store\<close>

text \<open>
  The \<open>n\<close> employees that the first loop draws from the generator, without the buffer
  and the database; a list cut into pieces of at most \<open>n\<close> elements, every piece but
  the last one full; the events of one batch insert; the batches among a list of
  events; and the names of the fixed population: \<open>F\<close> and a suffix, a male first name,
  a middle initial.
\<close>

fun random_employees :: "nat \<Rightarrow> nat list \<Rightarrow> employee list \<times> nat list" where
  "random_employees 0 r = ([], r)"
| "random_employees (Suc n) r =
     (let (e, r1) = random_employee r; (es, r2) = random_employees n r1 in (e # es, r2))"

function chunks :: "nat \<Rightarrow> 'a list \<Rightarrow> 'a list list" where
  "chunks n xs = (if n = 0 \<or> xs = [] then [] else take n xs # chunks n (drop n xs))"
  by pat_completeness auto
termination
  by (relation "measure (\<lambda>(n, xs). length xs)") auto

declare chunks.simps [simp del]

definition batch_events :: "employee list \<Rightarrow> event list" where
  "batch_events es = [Execute (INSERT_MANY es), Commit, Stdout (added_message (length es))]"

definition batches :: "event list \<Rightarrow> employee list list" where
  "batches evs =
     concat (map (\<lambda>ev. case ev of
                          Execute st \<Rightarrow> (case st of INSERT_MANY es \<Rightarrow> [es] | _ \<Rightarrow> [])
                        | _ \<Rightarrow> []) evs)"

definition f_pattern :: "string \<Rightarrow> bool" where
  "f_pattern name =
     (\<exists>suffix\<in>set f_suffixes. \<exists>first_name\<in>set first_names_male. \<exists>middle_name\<in>set middle_names.
        name = ''F'' @ suffix @ '' '' @ first_name @ '' '' @ middle_name)"

section \<open>Lemmas on the operations\<close>

text \<open>
  What each operation returns and leaves behind, first on a database that has the
  table, then for the trace in general. The properties of the program follow in the next
  section.
\<close>

lemmas world_ops = emit_def py_print_def commit_def close_def execute_def time_time_def

subsection \<open>Search and index on an existing table\<close>

text \<open>
  The search reads the clock twice around its query and changes neither the database nor
  the generator; the index statement sets the flag of the index.
\<close>

lemma update_db_same: "db w = d \<Longrightarrow> w\<lparr>db := d\<rparr> = w"
  by (cases w) simp

lemma execute_select_male_f:
  assumes "db w = Some t"
  shows "execute env SELECT_MALE_F w
           = (Inr (select_male_f (table_rows t)), emit (Execute SELECT_MALE_F) w)"
  using assms by (simp add: execute_def emit_def update_db_same)

lemma search_two_readings:
  assumes "db w = Some t" and "clock w = a # b # ts"
  shows "search_male_f_lastname env w =
           (Inr (b - a),
            w\<lparr>clock := ts,
              trace := trace w @ [Execute SELECT_MALE_F,
                 Stdout (found_message (length (select_male_f (table_rows t)))),
                 Stdout_execution_time (b - a)]\<rparr>)"
proof -
  have d: "db (w\<lparr>clock := b # ts\<rparr>) = Some t"
    using assms by simp
  show ?thesis
    using assms(2)
    by (simp add: search_male_f_lastname_def time_time_def execute_select_male_f [OF d]
        emit_def py_print_def Let_def)
qed


lemma optimize_with_table:
  assumes "db w = Some t"
  shows "optimize_database env w =
           (Inr (), w\<lparr>db := Some (t\<lparr>idx_gender_lastname := True\<rparr>),
              trace := trace w @ [Execute CREATE_INDEX, Commit,
                Stdout ''Database optimized with index on gender and full_name.'']\<rparr>)"
  using assms by (simp add: optimize_database_def world_ops)

subsection \<open>No operation closes the connection\<close>

text \<open>
  Every operation only extends the trace, and never by \<open>Close\<close>: by unfolding for the
  straight-line operations, by induction for the two loops.
\<close>

lemma quiet_refl: "quiet_step w w"
  by (simp add: quiet_step_def)

lemma quiet_same_trace: "trace w' = trace w \<Longrightarrow> quiet_step w w'"
  by (simp add: quiet_step_def)

lemma quiet_trans: "quiet_step a b \<Longrightarrow> quiet_step b c \<Longrightarrow> quiet_step a c"
  by (auto simp: quiet_step_def)

lemma quiet_emit: "ev \<noteq> Close \<Longrightarrow> quiet_step w (emit ev w)"
  by (simp add: quiet_step_def emit_def)

lemma quiet_execute: "quiet_step w (snd (execute env st w))"
  by (simp add: quiet_step_def execute_def emit_def split: sum.splits prod.splits)

lemma quiet_create_table: "quiet_step w (snd (create_table env w))"
  by (simp add: quiet_step_def create_table_def world_ops split: sum.splits prod.splits)

lemma quiet_add_employee: "quiet_step w (snd (add_employee env a b c w))"
  by (simp add: quiet_step_def add_employee_def world_ops Let_def split: sum.splits prod.splits)

lemma quiet_batch_add_employees: "quiet_step w (snd (batch_add_employees env es w))"
  by (simp add: quiet_step_def batch_add_employees_def world_ops split: sum.splits prod.splits)

lemma quiet_optimize_database: "quiet_step w (snd (optimize_database env w))"
  by (simp add: quiet_step_def optimize_database_def world_ops split: sum.splits prod.splits)

lemma quiet_search: "quiet_step w (snd (search_male_f_lastname env w))"
  by (auto simp: quiet_step_def search_male_f_lastname_def world_ops Let_def
      split: sum.splits prod.splits list.splits)

lemma quiet_list_rows: "quiet_step w (snd (list_rows today rows w))"
proof (induction rows arbitrary: w)
  case Nil
  show ?case by (simp add: quiet_refl)
next
  case (Cons row rows)
  show ?case
  proof (cases "calculate_age today row")
    case (Inl err)
    then show ?thesis by (simp add: quiet_refl)
  next
    case (Inr age)
    have "quiet_step w (py_print (listing_line row age) w)"
      by (simp add: py_print_def quiet_emit)
    then show ?thesis
      using Inr Cons.IH quiet_trans by auto
  qed
qed

lemma quiet_get_all_unique_employees: "quiet_step w (snd (get_all_unique_employees env w))"
proof (cases "execute env SELECT_UNIQUE w")
  case (Pair res w1)
  then have q: "quiet_step w w1"
    using quiet_execute [of w env SELECT_UNIQUE] by simp
  show ?thesis
  proof (cases res)
    case (Inl err)
    then show ?thesis using Pair q by (simp add: get_all_unique_employees_def)
  next
    case (Inr rows)
    then show ?thesis
      using Pair q quiet_list_rows [of w1 "date_today env" rows] quiet_trans
      by (auto simp: get_all_unique_employees_def)
  qed
qed

lemma quiet_main_loop: "quiet_step w (snd (main_loop env n buf w))"
proof (induction n arbitrary: buf w)
  case 0
  show ?case by (simp add: quiet_refl)
next
  case (Suc n)
  obtain e r where er: "random_employee (rng w) = (e, r)"
    by (cases "random_employee (rng w)")
  define w1 where "w1 = w\<lparr>rng := r\<rparr>"
  have q1: "quiet_step w w1"
    by (simp add: w1_def quiet_same_trace)
  show ?case
  proof (cases "10000 \<le> length (buf @ [e])")
    case True
    obtain res w2 where b: "batch_add_employees env (buf @ [e]) w1 = (res, w2)"
      by (cases "batch_add_employees env (buf @ [e]) w1")
    have q2: "quiet_step w w2"
      using quiet_trans [OF q1 quiet_batch_add_employees [of w1 env "buf @ [e]"]] b by simp
    show ?thesis
    proof (cases res)
      case (Inl err)
      then show ?thesis using True er b q2 by (simp add: w1_def)
    next
      case (Inr u)
      then show ?thesis
        using True er b quiet_trans [OF q2 Suc.IH [of w2 "[]"]] by (simp add: w1_def)
    qed
  next
    case False
    then show ?thesis
      using er quiet_trans [OF q1 Suc.IH [of w1 "buf @ [e]"]] by (simp add: w1_def)
  qed
qed

lemma quiet_generate_random_employees:
  "quiet_step w (snd (generate_random_employees env n w))"
proof -
  obtain res1 w1 where l: "main_loop env (nat n) [] w = (res1, w1)"
    by (cases "main_loop env (nat n) [] w")
  have q1: "quiet_step w w1"
    using quiet_main_loop [of w env "nat n" "[]"] l by simp
  show ?thesis
  proof (cases res1)
    case (Inl err)
    then show ?thesis using l q1 by (simp add: generate_random_employees_def)
  next
    case (Inr employees)
    obtain res2 w2 where
      f: "(if employees \<noteq> [] then batch_add_employees env employees w1 else (Inr (), w1)) = (res2, w2)"
      by (cases "if employees \<noteq> [] then batch_add_employees env employees w1 else (Inr (), w1)")
    have "quiet_step w1 w2"
      using f quiet_batch_add_employees [of w1 env employees] quiet_refl [of w1]
      by (auto split: if_splits)
    then have q2: "quiet_step w w2"
      using q1 quiet_trans by blast
    show ?thesis
    proof (cases res2)
      case (Inl err)
      then show ?thesis using l Inr f q2 by (simp add: generate_random_employees_def)
    next
      case (Inr u)
      obtain fs r where fl: "f_loop 100 [] (rng w2) = (fs, r)"
        by (cases "f_loop 100 [] (rng w2)")
      obtain res3 w3 where b: "batch_add_employees env fs (w2\<lparr>rng := r\<rparr>) = (res3, w3)"
        by (cases "batch_add_employees env fs (w2\<lparr>rng := r\<rparr>)")
      have "quiet_step w2 (w2\<lparr>rng := r\<rparr>)"
        by (simp add: quiet_same_trace)
      then have q3: "quiet_step w w3"
        using b quiet_batch_add_employees [of "w2\<lparr>rng := r\<rparr>" env fs] q2 quiet_trans
        by (metis snd_conv)
      have q4: "quiet_step w (py_print ''Finished generating random employees.'' w3)"
        using q3 quiet_trans quiet_emit [of "Stdout ''Finished generating random employees.''" w3]
        by (auto simp: py_print_def)
      show ?thesis
        using l \<open>res1 = Inr employees\<close> f Inr fl b q3 q4
        by (cases res3) (simp_all add: generate_random_employees_def)
    qed
  qed
qed

lemma quiet_main_try: "quiet_step w (snd (main_try env argv w))"
proof -
  have p: "quiet_step w (py_print s w)" for s w
    by (simp add: py_print_def quiet_emit)
  have five: "quiet_step w (snd (case search_male_f_lastname env w of
              (Inl err, w1) \<Rightarrow> (Inl err, w1)
            | (Inr t, w1) \<Rightarrow> (Inr (), w1)))"
    using quiet_search [of w env] by (auto split: prod.splits sum.splits)
  have rep: "quiet_step w (snd (report_improvement a b w))" for a b w
    by (simp add: report_improvement_def quiet_refl quiet_emit)
  have six: "quiet_step w (snd (case optimize_database env w of
              (Inl err, w1) \<Rightarrow> (Inl err, w1)
            | (Inr u, w1) \<Rightarrow>
                (let w2 = py_print ''Running performance test before and after optimization...'' w1;
                     w3 = py_print (CHR 0x0A # ''Before optimization:'') w2
                 in case search_male_f_lastname env w3 of
                      (Inl err, w4) \<Rightarrow> (Inl err, w4)
                    | (Inr before_time, w4) \<Rightarrow>
                        (let w5 = py_print (CHR 0x0A # ''After optimization:'') w4
                         in case search_male_f_lastname env w5 of
                              (Inl err, w6) \<Rightarrow> (Inl err, w6)
                            | (Inr after_time, w6) \<Rightarrow>
                                report_improvement before_time after_time w6))))"
  proof -
    obtain res1 w1 where o: "optimize_database env w = (res1, w1)"
      by (cases "optimize_database env w")
    have q1: "quiet_step w w1"
      using quiet_optimize_database [of w env] o by simp
    define w3 where "w3 = py_print (CHR 0x0A # ''Before optimization:'')
        (py_print ''Running performance test before and after optimization...'' w1)"
    have q3: "quiet_step w w3"
      unfolding w3_def using q1 p quiet_trans by blast
    obtain res4 w4 where s1: "search_male_f_lastname env w3 = (res4, w4)"
      by (cases "search_male_f_lastname env w3")
    have q4: "quiet_step w w4"
      using quiet_search [of w3 env] s1 q3 quiet_trans by (metis snd_conv)
    define w5 where "w5 = py_print (CHR 0x0A # ''After optimization:'') w4"
    have q5: "quiet_step w w5"
      unfolding w5_def using q4 p quiet_trans by blast
    obtain res6 w6 where s2: "search_male_f_lastname env w5 = (res6, w6)"
      by (cases "search_male_f_lastname env w5")
    have q6: "quiet_step w w6"
      using quiet_search [of w5 env] s2 q5 quiet_trans by (metis snd_conv)
    have q7: "quiet_step w (snd (report_improvement a b w6))" for a b
      using q6 rep quiet_trans by blast
    show ?thesis
      using o q1 s1 [unfolded w3_def] q4 s2 [unfolded w5_def] q6 q7
      by (cases res1; cases res4; cases res6) (simp_all add: Let_def w5_def)
  qed
  show ?thesis
    unfolding main_try_def Let_def
    by (simp add: quiet_create_table quiet_add_employee quiet_get_all_unique_employees
        quiet_generate_random_employees five six [unfolded Let_def] p)
qed

subsection \<open>The grouped query\<close>

text \<open>
  The keys of the rows that the query returns are the sorted keys of the stored rows
  without duplicates, and each returned row stems from a stored one.
\<close>

lemma table_rows_foldl_insert_row:
  "map snd (table_rows (foldl insert_row t es)) = map snd (table_rows t) @ es"
  by (induction es arbitrary: t) (simp_all add: insert_row_def)

lemma sorted_map_fst:
  fixes xs :: "('a::linorder \<times> 'b::linorder) list"
  assumes "sorted xs"
  shows "sorted (map fst xs)"
proof -
  have "sorted_wrt (\<lambda>x y. fst x \<le> fst y) xs"
    using assms by (rule sorted_wrt_mono_rel [rotated]) (auto simp: less_eq_prod_def)
  then show ?thesis
    by (simp add: sorted_map)
qed

lemma select_unique_keys:
  "map (\<lambda>e. (full_name e, birth_date e)) (select_unique pick rs) = sort (remdups (map group_key rs))"
  by (simp add: select_unique_def Let_def comp_def)

lemma select_unique_names:
  "map full_name (select_unique pick rs) = map fst (sort (remdups (map group_key rs)))"
  by (simp add: select_unique_def Let_def comp_def)

lemma select_unique_length:
  "length (select_unique pick rs) = length (remdups (map group_key rs))"
  by (simp add: select_unique_def)

lemma select_unique_member:
  assumes "e \<in> set (select_unique pick rs)"
  shows "\<exists>r\<in>set rs. full_name (snd r) = full_name e \<and> birth_date (snd r) = birth_date e
           \<and> gender (snd r) = gender e"
proof -
  from assms obtain k where k: "k \<in> set (map group_key rs)"
    and e: "e = \<lparr>full_name = fst k, birth_date = snd k,
                 gender = gender (snd (filter (\<lambda>r. group_key r = k) rs
                    ! (pick (filter (\<lambda>r. group_key r = k) rs)
                         mod length (filter (\<lambda>r. group_key r = k) rs))))\<rparr>"
    by (auto simp: select_unique_def Let_def)
  define g where "g = filter (\<lambda>r. group_key r = k) rs"
  define r where "r = g ! (pick g mod length g)"
  have "g \<noteq> []"
    using k by (auto simp: g_def filter_empty_conv)
  then have "r \<in> set g"
    by (simp add: r_def)
  then have r: "r \<in> set rs" and rk: "group_key r = k"
    by (auto simp: g_def)
  have "full_name (snd r) = full_name e" "birth_date (snd r) = birth_date e"
    using rk e by (auto simp: group_key_def)
  moreover have "gender (snd r) = gender e"
    using e by (simp add: r_def g_def)
  ultimately show ?thesis
    using r by blast
qed

subsection \<open>The listing on stored rows whose birth dates parse\<close>

text \<open>
  The loop over the fetched rows prints one line for each row when every age can be
  computed; the rows that the query returns are stored rows, and all of them when the
  stored pairs of name and birth date are pairwise different.
\<close>

lemma list_rows_run:
  assumes "map (calculate_age today) rows = map Inr ages"
  shows "list_rows today rows w
           = (Inr (), w\<lparr>trace := trace w @ map Stdout (map2 listing_line rows ages)\<rparr>)"
  using assms
proof (induction rows arbitrary: ages w)
  case Nil
  then show ?case by simp
next
  case (Cons row rows)
  then obtain a as where ages: "ages = a # as"
    and a: "calculate_age today row = Inr a"
    and as: "map (calculate_age today) rows = map Inr as"
    by (cases ages) auto
  show ?case
    using Cons.IH [OF as] by (simp add: ages a py_print_def emit_def)
qed

lemma ages_exist:
  assumes "\<forall>e\<in>set rows. \<exists>bd. strptime (birth_date e) = Inr bd"
  shows "\<exists>ages. map (calculate_age today) rows = map Inr ages"
  using assms
proof (induction rows)
  case Nil
  then show ?case by simp
next
  case (Cons row rows)
  then obtain ages where ages: "map (calculate_age today) rows = map Inr ages"
    by auto
  from Cons.prems obtain bd where "strptime (birth_date row) = Inr bd"
    by auto
  then obtain a where "calculate_age today row = Inr a"
    by (simp add: calculate_age_def Let_def)
  then have "map (calculate_age today) (row # rows) = map Inr (a # ages)"
    using ages by simp
  then show ?case ..
qed

lemma select_unique_stored:
  assumes "e \<in> set (select_unique pick rs)"
  shows "e \<in> snd ` set rs"
proof -
  obtain r where r: "r \<in> set rs" and f: "full_name (snd r) = full_name e"
    "birth_date (snd r) = birth_date e" "gender (snd r) = gender e"
    using select_unique_member [OF assms] by blast
  have "snd r = e"
    using f by (cases e; cases "snd r") simp
  then show ?thesis
    using r by force
qed

lemma select_unique_all_stored:
  assumes "distinct (map group_key rs)"
  shows "set (select_unique pick rs) = snd ` set rs"
proof (rule card_subset_eq)
  show "finite (snd ` set rs)"
    by simp
  show "set (select_unique pick rs) \<subseteq> snd ` set rs"
    using select_unique_stored by blast
  have k: "group_key = (\<lambda>e. (full_name e, birth_date e)) \<circ> snd"
    by (auto simp: group_key_def)
  have "distinct (map (\<lambda>e. (full_name e, birth_date e)) (select_unique pick rs))"
    by (simp add: select_unique_keys)
  then have "distinct (select_unique pick rs)"
    using distinct_map by blast
  then have a: "card (set (select_unique pick rs)) = length (select_unique pick rs)"
    by (rule distinct_card)
  have "distinct (map (\<lambda>e. (full_name e, birth_date e)) (map snd rs))"
    using assms by (simp add: k)
  then have "distinct (map snd rs)"
    using distinct_map by blast
  then have "card (set (map snd rs)) = length (map snd rs)"
    by (rule distinct_card)
  then have b: "card (snd ` set rs) = length rs"
    by simp
  have r: "remdups (map group_key rs) = map group_key rs"
    using assms by (rule distinct_remdups_id)
  have "length (select_unique pick rs) = length (remdups (map group_key rs))"
    by (rule select_unique_length)
  also have "\<dots> = length rs"
    by (simp only: r length_map)
  finally have "length (select_unique pick rs) = length rs" .
  then show "card (set (select_unique pick rs)) = card (snd ` set rs)"
    using a b by simp
qed

lemma add_employee_with_table:
  assumes "db w = Some t"
  shows "add_employee env n b g w
           = (Inr (), w\<lparr>db := Some (insert_row t \<lparr>full_name = n, birth_date = b, gender = g\<rparr>),
                trace := trace w
                  @ [Execute (INSERT \<lparr>full_name = n, birth_date = b, gender = g\<rparr>), Commit,
                     Stdout (''Employee '' @ n @ '' added successfully.'')]\<rparr>)"
  using assms by (simp add: add_employee_def world_ops Let_def)

lemma stdout_lines_listing:
  "stdout_lines (Execute st # map Stdout ls) = ls"
  by (induction ls) (simp_all add: stdout_lines_def)

lemma new_events_update: "new_events w (w\<lparr>trace := trace w @ evs\<rparr>) = evs"
  by (simp add: new_events_def)

lemma listing_run:
  assumes "db w = Some t"
    and "\<forall>r\<in>set (table_rows t). \<exists>bd. strptime (birth_date (snd r)) = Inr bd"
  shows "\<exists>ages. map (calculate_age (date_today env)) (select_unique (bare_row env) (table_rows t))
                   = map Inr ages
           \<and> get_all_unique_employees env w
               = (Inr (), w\<lparr>trace := trace w @ Execute SELECT_UNIQUE
                    # map Stdout (map2 listing_line
                        (select_unique (bare_row env) (table_rows t)) ages)\<rparr>)"
proof -
  define rows where "rows = select_unique (bare_row env) (table_rows t)"
  have "\<exists>bd. strptime (birth_date e) = Inr bd" if "e \<in> set rows" for e
  proof -
    from that obtain r where "r \<in> set (table_rows t)" and "snd r = e"
      using select_unique_stored [of e "bare_row env" "table_rows t"] by (auto simp: rows_def)
    then show ?thesis
      using assms(2) by auto
  qed
  then have "\<forall>e\<in>set rows. \<exists>bd. strptime (birth_date e) = Inr bd"
    by blast
  then obtain ages where ages: "map (calculate_age (date_today env)) rows = map Inr ages"
    using ages_exist by blast
  have q: "execute env SELECT_UNIQUE w = (Inr rows, emit (Execute SELECT_UNIQUE) w)"
    using assms(1) by (simp add: execute_def rows_def emit_def update_db_same)
  have "get_all_unique_employees env w
          = (Inr (), w\<lparr>trace := trace w @ Execute SELECT_UNIQUE
               # map Stdout (map2 listing_line rows ages)\<rparr>)"
    by (simp add: get_all_unique_employees_def q list_rows_run [OF ages] emit_def)
  then show ?thesis
    using ages unfolding rows_def by blast
qed

lemma strptime_unknown: "strptime ''unknown'' = Inl ValueError"
  by code_simp

subsection \<open>Listing a single stored employee\<close>

text \<open>
  The three runs of the scenario, for any current date and any choice of the engine.
\<close>

lemma strptime_1980_05_15: "strptime ''1980-05-15'' = Inr \<lparr>year = 1980, month = 5, day = 15\<rparr>"
  by code_simp

lemma select_unique_single:
  "select_unique pick [(i, e)] = [e]"
  by (simp add: select_unique_def group_key_def Let_def)

lemma listing_after_create_and_add:
  assumes "connect_ok env"
    and "db w0 = None \<or> (\<exists>t. db w0 = Some t \<and> table_rows t = [])"
    and "w1 = snd (main env [p1, ''1''] w0)"
    and "w2 = snd (main env [p2, ''2'', ''Ford Henry A.'', ''1980-05-15'', ''Male''] w1)"
    and "a = year (date_today env) - 1980
               - (if (month (date_today env), day (date_today env)) < (5, 15) then 1 else 0)"
  shows "main env [p3, ''3''] w2
           = (Inr (), w2\<lparr>trace := trace w2
                @ [Connect, Execute SELECT_UNIQUE, Stdout (listing_line ford a), Close]\<rparr>)"
proof -
  obtain t where t: "db w1 = Some t" "table_rows t = []"
    using assms(1,2,3)
    by (auto simp: main_def main_try_def create_table_def world_ops empty_table_def)
  have d2: "db w2 = Some (insert_row t ford)"
    using assms(1,4) t
    by (simp add: main_def main_try_def add_employee_def world_ops ford_def Let_def)
  have rows: "table_rows (insert_row t ford) = [(sqlite_sequence t + 1, ford)]"
    using t by (simp add: insert_row_def)
  have age: "calculate_age (date_today env) ford = Inr a"
    by (simp add: calculate_age_def ford_def strptime_1980_05_15 Let_def assms(5))
  have q: "execute env SELECT_UNIQUE (emit Connect w2)
             = (Inr [ford], emit (Execute SELECT_UNIQUE) (emit Connect w2))"
    using d2 by (simp add: execute_def rows select_unique_single emit_def update_db_same)
  have m: "main env [p3, ''3''] w2
             = (Inr (), close (py_print (listing_line ford a)
                  (emit (Execute SELECT_UNIQUE) (emit Connect w2))))"
    using assms(1) by (simp add: main_def main_try_def get_all_unique_employees_def q age)
  show ?thesis
    unfolding m by (simp add: close_def py_print_def emit_def)
qed

subsection \<open>The batches of the generation\<close>

text \<open>
  The first loop, by induction on the iterations that remain, for any buffer shorter
  than 10000: what it has flushed is the longest prefix of the drawn records (behind the
  buffer) whose length is a multiple of 10000, in pieces of 10000; what it returns is the
  rest.
\<close>

lemma batch_add_with_table:
  assumes "db w = Some t"
  shows "batch_add_employees env es w
           = (Inr (), w\<lparr>db := Some (foldl insert_row t es), trace := trace w @ batch_events es\<rparr>)"
  using assms by (simp add: batch_add_employees_def world_ops batch_events_def)

lemma chunks_Nil [simp]: "chunks n [] = []"
  by (simp add: chunks.simps)

lemma chunks_full:
  assumes "length b = n" and "0 < n"
  shows "chunks n (b @ xs) = b # chunks n xs"
  using assms by (subst chunks.simps) auto

lemma chunks_short:
  assumes "xs \<noteq> []" and "length xs \<le> n"
  shows "chunks n xs = [xs]"
  using assms by (subst chunks.simps) (cases xs, auto)

lemma main_loop_run:
  assumes "db w = Some t" and "length buf < 10000"
    and "random_employees n (rng w) = (es, r)"
  shows "\<exists>w'. main_loop env n buf w
                 = (Inr (drop (length (buf @ es) div 10000 * 10000) (buf @ es)), w')
           \<and> db w' = Some (foldl insert_row t
                              (take (length (buf @ es) div 10000 * 10000) (buf @ es)))
           \<and> rng w' = r
           \<and> trace w' = trace w
               @ concat (map batch_events
                   (chunks 10000 (take (length (buf @ es) div 10000 * 10000) (buf @ es))))"
  using assms
proof (induction n arbitrary: buf w t es)
  case 0
  then show ?case by simp
next
  case (Suc n)
  obtain e r1 where e: "random_employee (rng w) = (e, r1)"
    by (cases "random_employee (rng w)")
  obtain es' where es': "random_employees n r1 = (es', r)" and es: "es = e # es'"
    using Suc.prems(3) e by (auto split: prod.splits)
  define w1 where "w1 = w\<lparr>rng := r1\<rparr>"
  have d1: "db w1 = Some t" and r1: "rng w1 = r1" and t1: "trace w1 = trace w"
    using Suc.prems(1) by (simp_all add: w1_def)
  show ?case
  proof (cases "10000 \<le> length (buf @ [e])")
    case True
    define B where "B = buf @ [e]"
    have lB: "length B = 10000"
      using True Suc.prems(2) by (simp add: B_def)
    define w2 where "w2 = w1\<lparr>db := Some (foldl insert_row t B), trace := trace w1 @ batch_events B\<rparr>"
    have b: "batch_add_employees env B w1 = (Inr (), w2)"
      using batch_add_with_table [OF d1] by (simp add: w2_def)
    have d2: "db w2 = Some (foldl insert_row t B)" and r2: "rng w2 = r1"
      by (simp_all add: w2_def r1)
    have "random_employees n (rng w2) = (es', r)"
      using es' r2 by simp
    then have "\<exists>w'. main_loop env n [] w2
                 = (Inr (drop (length es' div 10000 * 10000) es'), w')
           \<and> db w' = Some (foldl insert_row (foldl insert_row t B)
                              (take (length es' div 10000 * 10000) es'))
           \<and> rng w' = r
           \<and> trace w' = trace w2
               @ concat (map batch_events
                   (chunks 10000 (take (length es' div 10000 * 10000) es')))"
      using Suc.IH [where buf = "[]" and w = w2, OF d2] by simp
    then obtain w' where m: "main_loop env n [] w2
                 = (Inr (drop (length es' div 10000 * 10000) es'), w')"
      and d': "db w' = Some (foldl insert_row (foldl insert_row t B)
                              (take (length es' div 10000 * 10000) es'))"
      and r': "rng w' = r"
      and t': "trace w' = trace w2
               @ concat (map batch_events
                   (chunks 10000 (take (length es' div 10000 * 10000) es')))"
      by auto
    have all: "buf @ es = B @ es'"
      by (simp add: es B_def)
    have q: "length (B @ es') div 10000 * 10000 = 10000 + length es' div 10000 * 10000"
      by (simp add: lB)
    have tk: "take (length (B @ es') div 10000 * 10000) (B @ es')
                = B @ take (length es' div 10000 * 10000) es'"
      unfolding q by (simp add: lB)
    have dr: "drop (length (B @ es') div 10000 * 10000) (B @ es')
                = drop (length es' div 10000 * 10000) es'"
      unfolding q by (simp add: lB)
    have ml: "main_loop env (Suc n) buf w = main_loop env n [] w2"
      using e True b by (simp add: w1_def B_def)
    show ?thesis
      unfolding all tk dr ml
      using m d' r' t'
      by (simp add: chunks_full [OF lB] w2_def t1)
  next
    case False
    have l: "length (buf @ [e]) < 10000"
      using False by simp
    have "random_employees n (rng w1) = (es', r)"
      using es' r1 by simp
    from Suc.IH [OF d1 l this]
    have "\<exists>w'. main_loop env n (buf @ [e]) w1
                 = (Inr (drop (length (buf @ es) div 10000 * 10000) (buf @ es)), w')
           \<and> db w' = Some (foldl insert_row t
                              (take (length (buf @ es) div 10000 * 10000) (buf @ es)))
           \<and> rng w' = r
           \<and> trace w' = trace w
               @ concat (map batch_events
                   (chunks 10000 (take (length (buf @ es) div 10000 * 10000) (buf @ es))))"
      by (simp add: es t1)
    moreover have "main_loop env (Suc n) buf w = main_loop env n (buf @ [e]) w1"
      using e False by (simp add: w1_def)
    ultimately show ?thesis
      by simp
  qed
qed


lemma chunks_full_then_rest:
  assumes "0 < n"
  shows "chunks n xs = chunks n (take (length xs div n * n) xs)
           @ (if drop (length xs div n * n) xs = [] then [] else [drop (length xs div n * n) xs])"
  using assms
proof (induction "length xs" arbitrary: xs rule: less_induct)
  case less
  show ?case
  proof (cases "length xs < n")
    case True
    then show ?thesis
      by (cases "xs = []") (simp_all add: chunks_short)
  next
    case False
    define b where "b = take n xs"
    define ys where "ys = drop n xs"
    have xs: "xs = b @ ys" and lb: "length b = n"
      using False by (simp_all add: b_def ys_def)
    have "length ys < length xs"
      using False less.prems by (simp add: ys_def)
    from less.hyps [OF this less.prems]
    have ih: "chunks n ys = chunks n (take (length ys div n * n) ys)
           @ (if drop (length ys div n * n) ys = [] then [] else [drop (length ys div n * n) ys])" .
    have q: "length (b @ ys) div n * n = n + length ys div n * n"
      using less.prems by (simp add: lb)
    have tk: "take (length (b @ ys) div n * n) (b @ ys) = b @ take (length ys div n * n) ys"
      unfolding q by (simp add: lb)
    have dr: "drop (length (b @ ys) div n * n) (b @ ys) = drop (length ys div n * n) ys"
      unfolding q by (simp add: lb)
    show ?thesis
      unfolding xs tk dr chunks_full [OF lb less.prems]
      using ih by simp
  qed
qed

lemma concat_chunks: "0 < n \<Longrightarrow> concat (chunks n xs) = xs"
proof (induction n xs rule: chunks.induct)
  case (1 n xs)
  then show ?case
    by (subst chunks.simps) auto
qed

lemma chunks_sizes:
  "0 < n \<Longrightarrow> b \<in> set (chunks n xs) \<Longrightarrow> b \<noteq> [] \<and> length b \<le> n"
proof (induction n xs rule: chunks.induct)
  case (1 n xs)
  show ?case
  proof (cases "xs = []")
    case True
    with "1.prems" show ?thesis by simp
  next
    case False
    have c: "chunks n xs = take n xs # chunks n (drop n xs)"
      using False "1.prems"(1) by (subst chunks.simps) simp
    from "1.prems"(2) have "b = take n xs \<or> b \<in> set (chunks n (drop n xs))"
      unfolding c by simp
    then show ?thesis
      using "1.IH" False "1.prems"(1) by auto
  qed
qed

lemma chunks_butlast_full:
  "0 < n \<Longrightarrow> b \<in> set (butlast (chunks n xs)) \<Longrightarrow> length b = n"
proof (induction n xs rule: chunks.induct)
  case (1 n xs)
  show ?case
  proof (cases "xs = []")
    case True
    with "1.prems" show ?thesis by simp
  next
    case False
    have c: "chunks n xs = take n xs # chunks n (drop n xs)"
      using False "1.prems"(1) by (subst chunks.simps) simp
    show ?thesis
    proof (cases "chunks n (drop n xs) = []")
      case True
      with c "1.prems" show ?thesis by simp
    next
      case ne: False
      then have "drop n xs \<noteq> []"
        by auto
      then have l: "length (take n xs) = n"
        by simp
      from "1.prems"(2) have "b = take n xs \<or> b \<in> set (butlast (chunks n (drop n xs)))"
        unfolding c using ne by simp
      then show ?thesis
        using l "1.IH" False "1.prems"(1) by auto
    qed
  qed
qed

lemma batches_append [simp]: "batches (xs @ ys) = batches xs @ batches ys"
  by (simp add: batches_def)

lemma batches_batch_events [simp]: "batches (batch_events es) = [es]"
  by (simp add: batches_def batch_events_def)

lemma batches_concat_batch_events [simp]: "batches (concat (map batch_events bs)) = bs"
  by (induction bs) (simp_all add: batches_def batch_events_def)

lemma random_employees_length: "length (fst (random_employees n r)) = n"
proof (induction n arbitrary: r)
  case 0
  show ?case by simp
next
  case (Suc n)
  obtain e r1 where e: "random_employee r = (e, r1)"
    by (cases "random_employee r")
  obtain es r2 where es: "random_employees n r1 = (es, r2)"
    by (cases "random_employees n r1")
  show ?case
    using Suc.IH [of r1] e es by simp
qed

lemma f_loop_append:
  "fst (f_loop n acc r) = acc @ fst (f_loop n [] r) \<and> snd (f_loop n acc r) = snd (f_loop n [] r)"
proof (induction n arbitrary: acc r)
  case 0
  show ?case by simp
next
  case (Suc n)
  obtain e r1 where e: "random_f_employee r = (e, r1)"
    by (cases "random_f_employee r")
  show ?case
    using Suc.IH [of "acc @ [e]" r1] Suc.IH [of "[e]" r1] e by simp
qed

lemma f_loop_length: "length (fst (f_loop n acc r)) = length acc + n"
  by (induction n arbitrary: acc r) (simp_all split: prod.splits)

lemma generate_run:
  assumes "db w = Some t"
    and "random_employees (nat count) (rng w) = (es, r1)"
    and "f_loop 100 [] r1 = (fs, r2)"
  shows "\<exists>w'. generate_random_employees env count w = (Inr (), w')
           \<and> db w' = Some (foldl insert_row t (es @ fs))
           \<and> rng w' = r2
           \<and> trace w' = trace w @ concat (map batch_events (chunks 10000 es @ [fs]))
               @ [Stdout ''Finished generating random employees.'']"
proof -
  define q where "q = length es div 10000 * 10000"
  from main_loop_run [where buf = "[]" and env = env, OF assms(1) _ assms(2)]
  obtain w1 where m: "main_loop env (nat count) [] w = (Inr (drop q es), w1)"
    and d1: "db w1 = Some (foldl insert_row t (take q es))"
    and r1: "rng w1 = r1"
    and t1: "trace w1 = trace w @ concat (map batch_events (chunks 10000 (take q es)))"
    by (auto simp: q_def)
  define w2 where "w2 = (if drop q es \<noteq> []
      then w1\<lparr>db := Some (foldl insert_row (foldl insert_row t (take q es)) (drop q es)),
              trace := trace w1 @ batch_events (drop q es)\<rparr>
      else w1)"
  have f: "(if drop q es \<noteq> [] then batch_add_employees env (drop q es) w1 else (Inr (), w1))
             = (Inr (), w2)"
    using batch_add_with_table [OF d1] by (simp add: w2_def)
  have "foldl insert_row (foldl insert_row t (take q es)) (drop q es) = foldl insert_row t es"
    by (simp flip: foldl_append)
  then have d2: "db w2 = Some (foldl insert_row t es)"
    using d1 by (cases "drop q es = []") (simp_all add: w2_def)
  have r2: "rng w2 = r1"
    using r1 by (simp add: w2_def)
  have c: "chunks 10000 es = chunks 10000 (take q es)
           @ (if drop q es = [] then [] else [drop q es])"
    using chunks_full_then_rest [of 10000 es] by (simp add: q_def)
  have t2: "trace w2 = trace w @ concat (map batch_events (chunks 10000 es))"
  proof (cases "drop q es = []")
    case True
    have "chunks 10000 es = chunks 10000 (take q es)"
      by (simp only: c True refl if_True append_Nil2)
    moreover have "w2 = w1"
      using True by (simp add: w2_def)
    ultimately show ?thesis
      by (simp only: t1)
  next
    case False
    have "chunks 10000 es = chunks 10000 (take q es) @ [drop q es]"
      by (simp only: c False if_False)
    moreover have "trace w2 = trace w1 @ batch_events (drop q es)"
      using False by (simp add: w2_def)
    ultimately show ?thesis
      by (simp only: t1 map_append concat_append append_assoc list.map concat.simps append_Nil2)
  qed
  define w3 where "w3 = w2\<lparr>rng := r2\<rparr>"
  have d3: "db w3 = Some (foldl insert_row t es)"
    using d2 by (simp add: w3_def)
  define w4 where "w4 = w3\<lparr>db := Some (foldl insert_row (foldl insert_row t es) fs),
                           trace := trace w3 @ batch_events fs\<rparr>"
  have b: "batch_add_employees env fs w3 = (Inr (), w4)"
    using batch_add_with_table [OF d3] by (simp add: w4_def)
  have g: "generate_random_employees env count w
             = (Inr (), py_print ''Finished generating random employees.'' w4)"
    using m f b assms(3) r2
    by (simp add: generate_random_employees_def w3_def)
  show ?thesis
    unfolding g
    by (simp add: py_print_def emit_def w4_def w3_def t2)
qed

subsection \<open>Dates written by the generation are read back by \<^verbatim>\<open>strptime\<close>\<close>

text \<open>
  The decimal digits of a number below 10000, the characters of a digit, and the three
  groups of the regular expression on a year of four digits, a month and a day of two.
\<close>

lemma digit_char_props:
  assumes "k < 10"
  shows "digit (digit_char k)" and "digit_val (digit_char k) = int k"
  using assms by (simp_all add: digit_def digit_char_def digit_val_def less_eq_char_def)

lemma digits_one: "n < 10 \<Longrightarrow> digits n = [digit_char n]"
  by (subst digits.simps) simp

lemma digits_two:
  assumes "10 \<le> n" and "n < 100"
  shows "digits n = [digit_char (n div 10), digit_char (n mod 10)]"
proof -
  have "n div 10 < 10"
    using assms by simp
  then show ?thesis
    using assms by (subst digits.simps) (simp add: digits_one)
qed

lemma digits_four:
  assumes "1000 \<le> n" and "n < 10000"
  shows "digits n = [digit_char (n div 1000), digit_char (n div 100 mod 10),
                     digit_char (n div 10 mod 10), digit_char (n mod 10)]"
proof -
  have a: "10 \<le> n div 100" "n div 100 < 100" "\<not> n div 10 < 10" "\<not> n < 10"
    using assms by simp_all
  have b: "n div 10 div 10 = n div 100" "n div 100 div 10 = n div 1000"
    by (simp_all add: div_mult2_eq [symmetric])
  have "digits n = digits (n div 10) @ [digit_char (n mod 10)]"
    using a by (subst digits.simps) simp
  also have "digits (n div 10) = digits (n div 100) @ [digit_char (n div 10 mod 10)]"
    using a b by (subst digits.simps) simp
  also have "digits (n div 100) = [digit_char (n div 1000), digit_char (n div 100 mod 10)]"
    using digits_two [OF a(1,2)] b by simp
  finally show ?thesis
    by simp
qed

lemma re_Y_year:
  assumes "1000 \<le> y" and "y \<le> 9999"
  shows "re_Y (str_int y @ rest) = [(str_int y, rest)]" and "py_int (str_int y) = y"
proof -
  define n where "n = nat y"
  have n: "1000 \<le> n" "n < 10000" and y: "y = int n"
    using assms by (simp_all add: n_def)
  have s: "str_int y = [digit_char (n div 1000), digit_char (n div 100 mod 10),
                     digit_char (n div 10 mod 10), digit_char (n mod 10)]"
    using assms digits_four [OF n] by (simp add: str_int_def n_def)
  have k: "n div 1000 < 10" "n div 100 mod 10 < 10" "n div 10 mod 10 < 10" "n mod 10 < 10"
    using n by simp_all
  show "re_Y (str_int y @ rest) = [(str_int y, rest)]"
    unfolding s by (simp add: re_Y_def digit_char_props(1) k)
  have sp: "digit_char j \<noteq> CHR '' ''" if "j < 10" for j
  proof -
    have "(of_char (digit_char j) :: nat) \<noteq> of_char CHR '' ''"
      using that by (simp add: digit_char_def)
    then show ?thesis
      by auto
  qed
  have e1: "n = 10 * (n div 10) + n mod 10"
    by simp
  have e2: "n div 10 = 10 * (n div 100) + n div 10 mod 10"
    using mult_div_mod_eq [of 10 "n div 10"] by (simp add: div_mult2_eq [symmetric])
  have e3: "n div 100 = 10 * (n div 1000) + n div 100 mod 10"
    using mult_div_mod_eq [of 10 "n div 100"] by (simp add: div_mult2_eq [symmetric])
  have "n div 1000 * 1000 + n div 100 mod 10 * 100 + n div 10 mod 10 * 10 + n mod 10 = n"
    using e1 e2 e3 by linarith
  then have "int (n div 1000) * 1000 + int (n div 100 mod 10) * 100
          + int (n div 10 mod 10) * 10 + int (n mod 10) = int n"
    by (metis (no_types) of_nat_add of_nat_mult of_nat_numeral)
  then show "py_int (str_int y) = y"
    unfolding s unfolding y by (simp add: py_int_def digit_char_props(2) k sp)
qed


lemmas re_defs = re_m_def re_d_def re_dash_def re_alt_def between_def digit_def less_eq_char_def

lemma fmt_02d_small: "0 \<le> i \<Longrightarrow> i < 10 \<Longrightarrow> fmt_02d i = [CHR ''0'', digit_char (nat i)]"
  by (simp add: fmt_02d_def str_int_def digits_one)

lemma fmt_02d_large:
  "10 \<le> i \<Longrightarrow> i < 100 \<Longrightarrow> fmt_02d i = [digit_char (nat i div 10), digit_char (nat i mod 10)]"
  by (simp add: fmt_02d_def str_int_def digits_two)

lemma month_cases:
  assumes "1 \<le> m" and "m \<le> 12"
  shows "m = 1 \<or> m = 2 \<or> m = 3 \<or> m = 4 \<or> m = 5 \<or> m = 6 \<or> m = 7 \<or> m = 8 \<or> m = 9
       \<or> m = 10 \<or> m = 11 \<or> m = (12::int)"
  using assms by presburger

lemma of_char_digit_char: "k < 10 \<Longrightarrow> (of_char (digit_char k) :: nat) = 48 + k"
  by (simp add: digit_char_def)

lemma char_eq_digit_char:
  assumes "k < 10"
  shows "(c = digit_char k) = ((of_char c :: nat) = 48 + k)"
proof -
  have "(c = digit_char k) = ((of_char c :: nat) = of_char (digit_char k))"
    by simp
  then show ?thesis
    by (simp only: of_char_digit_char [OF assms])
qed

lemma digit_char_eq_char:
  assumes "k < 10"
  shows "(digit_char k = c) = ((of_char c :: nat) = 48 + k)"
  using char_eq_digit_char [OF assms, of c] by auto

lemmas digit_char_simps = of_char_digit_char char_eq_digit_char digit_char_eq_char

lemma re_m_month:
  assumes "1 \<le> m" and "m \<le> 12"
  shows "concat (map (\<lambda>p. concat (map (\<lambda>q. F (fst p) (snd q)) (re_dash (snd p))))
           (re_m (fmt_02d m @ CHR ''-'' # rest))) = F (fmt_02d m) rest"
  using month_cases [OF assms]
  by (elim disjE) (simp_all add: fmt_02d_small fmt_02d_large digit_char_simps re_defs)

lemma py_int_month:
  assumes "1 \<le> m" and "m \<le> 12"
  shows "py_int (fmt_02d m) = m"
  using month_cases [OF assms]
  by (elim disjE) (simp_all add: fmt_02d_small fmt_02d_large digit_char_simps py_int_def
      digit_val_def)

lemma day_cases:
  assumes "1 \<le> d" and "d \<le> 28"
  shows "d = 1 \<or> d = 2 \<or> d = 3 \<or> d = 4 \<or> d = 5 \<or> d = 6 \<or> d = 7 \<or> d = 8 \<or> d = 9
       \<or> d = 10 \<or> d = 11 \<or> d = 12 \<or> d = 13 \<or> d = 14 \<or> d = 15 \<or> d = 16 \<or> d = 17
       \<or> d = 18 \<or> d = 19 \<or> d = 20 \<or> d = 21 \<or> d = 22 \<or> d = 23 \<or> d = 24 \<or> d = 25
       \<or> d = 26 \<or> d = 27 \<or> d = (28::int)"
  using assms by presburger

lemma re_d_day:
  assumes "1 \<le> d" and "d \<le> 28"
  shows "\<exists>others. re_d (fmt_02d d) = (fmt_02d d, []) # others"
  using day_cases [OF assms]
  by (elim disjE) (simp_all add: fmt_02d_small fmt_02d_large digit_char_simps re_defs)

lemma py_int_day:
  assumes "1 \<le> d" and "d \<le> 28"
  shows "py_int (fmt_02d d) = d"
  using day_cases [OF assms]
  by (elim disjE) (simp_all add: fmt_02d_small fmt_02d_large digit_char_simps py_int_def
      digit_val_def)

lemma strptime_iso:
  assumes "1000 \<le> y" and "y \<le> 9999" and "1 \<le> m" and "m \<le> 12" and "1 \<le> d" and "d \<le> 28"
  shows "strptime (str_int y @ ''-'' @ fmt_02d m @ ''-'' @ fmt_02d d)
           = Inr \<lparr>year = y, month = m, day = d\<rparr>"
proof -
  obtain others where o: "re_d (fmt_02d d) = (fmt_02d d, []) # others"
    using re_d_day [OF assms(5,6)] by blast
  have dash: "re_dash (CHR ''-'' # s) = [(''-'', s)]" for s
    by (simp add: re_dash_def)
  have "format_regex (str_int y @ ''-'' @ fmt_02d m @ ''-'' @ fmt_02d d)
          = map (\<lambda>(dd, r). (str_int y, fmt_02d m, dd, r)) (re_d (fmt_02d d))"
    unfolding format_regex_def
    by (simp add: re_Y_year(1) [OF assms(1,2)] dash case_prod_unfold
        re_m_month [OF assms(3,4),
          where F = "\<lambda>mm s4. map (\<lambda>pa. (str_int y, mm, pa)) (re_d s4)"])
  then have f: "format_regex (str_int y @ ''-'' @ fmt_02d m @ ''-'' @ fmt_02d d)
          = (str_int y, fmt_02d m, fmt_02d d, [])
              # map (\<lambda>(dd, r). (str_int y, fmt_02d m, dd, r)) others"
    by (simp add: o)
  have v: "mk_date y m d = Inr \<lparr>year = y, month = m, day = d\<rparr>"
    using assms by (simp add: mk_date_def days_in_month_def)
  show ?thesis
    unfolding strptime_def f
    by (simp add: re_Y_year(2) [OF assms(1,2)] py_int_month [OF assms(3,4)]
        py_int_day [OF assms(5,6)] v)
qed

subsection \<open>The generated records\<close>

text \<open>
  A choice is an element of its list and a random integer lies in its interval, so
  every record of the first loop starts with a last name of the list and every record of
  the second loop has the \<open>F\<close> pattern.
\<close>

lemma choice_mem: "seq \<noteq> [] \<Longrightarrow> fst (choice seq r) \<in> set seq"
  by (simp add: choice_def case_prod_unfold Let_def)

lemma randint_range:
  assumes "a \<le> b"
  shows "a \<le> fst (randint a b r) \<and> fst (randint a b r) \<le> b"
proof -
  have "int (fst (next_random r) mod nat (b - a + 1)) < int (nat (b - a + 1))"
    using assms by (simp only: of_nat_less_iff) simp
  then show ?thesis
    using assms by (simp add: randint_def case_prod_unfold Let_def)
qed

lemma random_birth_date_form:
  "\<exists>y m d. 1950 \<le> y \<and> y \<le> 2005 \<and> 1 \<le> m \<and> m \<le> 12 \<and> 1 \<le> d \<and> d \<le> 28
     \<and> fst (random_birth_date r) = str_int y @ ''-'' @ fmt_02d m @ ''-'' @ fmt_02d d"
proof -
  define r1 where "r1 = snd (randint 1950 2005 r)"
  define r2 where "r2 = snd (randint 1 12 r1)"
  have "fst (random_birth_date r)
          = str_int (fst (randint 1950 2005 r)) @ ''-'' @ fmt_02d (fst (randint 1 12 r1))
              @ ''-'' @ fmt_02d (fst (randint 1 28 r2))"
    by (simp add: random_birth_date_def case_prod_unfold r1_def r2_def Let_def)
  then show ?thesis
    using randint_range [of 1950 2005 r] randint_range [of 1 12 r1] randint_range [of 1 28 r2]
    by (intro exI [of _ "fst (randint 1950 2005 r)"] exI [of _ "fst (randint 1 12 r1)"]
        exI [of _ "fst (randint 1 28 r2)"]) simp
qed

lemma random_employee_props:
  "(\<exists>last_name\<in>set last_names. \<exists>tail. full_name (fst (random_employee r)) = last_name @ tail)
   \<and> (\<exists>r'. birth_date (fst (random_employee r)) = fst (random_birth_date r'))
   \<and> (gender (fst (random_employee r)) = ''Male'' \<or> gender (fst (random_employee r)) = ''Female'')"
proof -
  have g: "fst (choice [''Male'', ''Female''] r) \<in> set [''Male'', ''Female'']"
    by (rule choice_mem) simp
  have l: "fst (choice last_names r') \<in> set last_names" for r'
    by (rule choice_mem) (simp add: last_names_def)
  show ?thesis
    using g l by (auto simp: random_employee_def case_prod_unfold Let_def)
qed

lemma random_f_employee_props:
  "f_pattern (full_name (fst (random_f_employee r)))
   \<and> (\<exists>r'. birth_date (fst (random_f_employee r)) = fst (random_birth_date r'))
   \<and> gender (fst (random_f_employee r)) = ''Male''"
proof -
  have a: "fst (choice first_names_male r') \<in> set first_names_male" for r'
    by (rule choice_mem) (simp add: first_names_male_def)
  have b: "fst (choice f_suffixes r') \<in> set f_suffixes" for r'
    by (rule choice_mem) (simp add: f_suffixes_def)
  have c: "fst (choice middle_names r') \<in> set middle_names" for r'
    by (rule choice_mem) (simp add: middle_names_def)
  have "f_pattern (full_name (fst (random_f_employee r)))"
    unfolding f_pattern_def random_f_employee_def case_prod_unfold Let_def
    using a b c by (simp del: set_simps) blast
  then show ?thesis
    by (auto simp: random_f_employee_def case_prod_unfold Let_def)
qed

lemma f_pattern_hd: "f_pattern name \<Longrightarrow> hd name = CHR ''F''"
  by (auto simp: f_pattern_def)

lemma last_name_hd: "last_name \<in> set last_names \<Longrightarrow> hd (last_name @ tail) \<noteq> CHR ''F''"
  by (auto simp: last_names_def)

lemma random_employee_not_f: "\<not> f_pattern (full_name (fst (random_employee r)))"
  using random_employee_props [of r] f_pattern_hd last_name_hd by metis

lemma random_employees_members:
  "e \<in> set (fst (random_employees n r)) \<Longrightarrow> \<exists>r'. e = fst (random_employee r')"
proof (induction n arbitrary: r)
  case 0
  then show ?case by simp
next
  case (Suc n)
  obtain e1 r1 where e1: "random_employee r = (e1, r1)"
    by (cases "random_employee r")
  obtain es r2 where es: "random_employees n r1 = (es, r2)"
    by (cases "random_employees n r1")
  from Suc.prems have "e = e1 \<or> e \<in> set es"
    by (simp add: e1 es)
  then show ?case
  proof
    assume "e = e1"
    then have "e = fst (random_employee r)"
      by (simp add: e1)
    then show ?thesis ..
  next
    assume "e \<in> set es"
    then show ?thesis
      using Suc.IH [of r1] es by simp
  qed
qed

lemma f_loop_members:
  "e \<in> set (fst (f_loop n acc r)) \<Longrightarrow> e \<in> set acc \<or> (\<exists>r'. e = fst (random_f_employee r'))"
proof (induction n arbitrary: acc r)
  case 0
  then show ?case by simp
next
  case (Suc n)
  obtain e1 r1 where e1: "random_f_employee r = (e1, r1)"
    by (cases "random_f_employee r")
  from Suc.prems have "e \<in> set (fst (f_loop n (acc @ [e1]) r1))"
    by (simp add: e1)
  from Suc.IH [OF this] show ?case
  proof
    assume "e \<in> set (acc @ [e1])"
    then have "e \<in> set acc \<or> e = fst (random_f_employee r)"
      by (auto simp: e1)
    then show ?thesis by blast
  qed blast
qed

lemma batches_stdout [simp]: "batches [Stdout s] = []"
  by (simp add: batches_def)

lemma new_events_append: "trace w' = trace w @ evs \<Longrightarrow> new_events w w' = evs"
  by (simp add: new_events_def)

lemma birth_date_of_generation_parses:
  assumes "birth_date e = fst (random_birth_date r)"
  shows "\<exists>y m d. 1950 \<le> y \<and> y \<le> 2005 \<and> 1 \<le> m \<and> m \<le> 12 \<and> 1 \<le> d \<and> d \<le> 28
           \<and> birth_date e = str_int y @ ''-'' @ fmt_02d m @ ''-'' @ fmt_02d d
           \<and> length (birth_date e) = 10
           \<and> strptime (birth_date e) = Inr \<lparr>year = y, month = m, day = d\<rparr>
           \<and> (\<forall>today. calculate_age today e
                 = Inr (year today - y - (if (month today, day today) < (m, d) then 1 else 0)))"
proof -
  obtain y m d where r: "1950 \<le> y" "y \<le> 2005" "1 \<le> m" "m \<le> 12" "1 \<le> d" "d \<le> 28"
    and b: "birth_date e = str_int y @ ''-'' @ fmt_02d m @ ''-'' @ fmt_02d d"
    using random_birth_date_form [of r] assms by auto
  have p: "strptime (birth_date e) = Inr \<lparr>year = y, month = m, day = d\<rparr>"
    unfolding b using r by (intro strptime_iso) simp_all
  have ly: "length (str_int y) = 4"
    using r digits_four [of "nat y"] by (simp add: str_int_def)
  have l2: "length (fmt_02d i) = 2" if "1 \<le> i" "i \<le> 28" for i
    using that by (cases "i < 10") (simp_all add: fmt_02d_small fmt_02d_large)
  have l: "length (birth_date e) = 10"
    unfolding b using ly l2 r by simp
  have "calculate_age today e
                 = Inr (year today - y - (if (month today, day today) < (m, d) then 1 else 0))"
    for today
    by (simp add: calculate_age_def p Let_def)
  then show ?thesis
    using r b l p by blast
qed

section \<open>Properties\<close>

subsection \<open>Age\<close>

text \<open>
  C1. When the birth date of an employee parses as a calendar date \<open>bd\<close>, the age on the
  day \<open>today\<close> is the difference of the years, less one exactly when the pair of
  today's month and day is lexicographically before the pair of the birth date. That
  number is the conventional age: it is the one \<open>k\<close> whose birthday is reached and
  whose successor's is not. At the boundary: on the birthday and one day after it the
  age is the difference of the years, one day before it is one less.
\<close>

theorem calculate_age_whole_years:
  assumes "strptime (birth_date e) = Inr bd"
  shows "calculate_age today e =
           Inr (year today - year bd
                - (if (month today, day today) < (month bd, day bd) then 1 else 0))
       \<and> (\<forall>k. whole_years_elapsed bd today k \<longleftrightarrow> calculate_age today e = Inr k)
       \<and> (month today = month bd \<and> day today = day bd
            \<longrightarrow> calculate_age today e = Inr (year today - year bd))
       \<and> (month today = month bd \<and> day today = day bd + 1
            \<longrightarrow> calculate_age today e = Inr (year today - year bd))
       \<and> (month today = month bd \<and> day today + 1 = day bd
            \<longrightarrow> calculate_age today e = Inr (year today - year bd - 1))"
proof -
  define a where
    "a = year today - year bd - (if (month today, day today) < (month bd, day bd) then 1 else 0)"
  have age: "calculate_age today e = Inr a"
    using assms by (simp add: calculate_age_def a_def Let_def)
  have conv: "whole_years_elapsed bd today k \<longleftrightarrow> k = a" for k
    unfolding whole_years_elapsed_def birthday_reached_def a_def
    by (auto simp: less_eq_prod_simp less_prod_simp)
  have "\<forall>k. whole_years_elapsed bd today k \<longleftrightarrow> calculate_age today e = Inr k"
    using conv age by auto
  moreover have "month today = month bd \<and> day today = day bd \<longrightarrow> a = year today - year bd"
    by (simp add: a_def)
  moreover have "month today = month bd \<and> day today = day bd + 1 \<longrightarrow> a = year today - year bd"
    by (simp add: a_def)
  moreover have "month today = month bd \<and> day today + 1 = day bd \<longrightarrow> a = year today - year bd - 1"
    by (auto simp: a_def)
  ultimately show ?thesis
    using age by (simp add: a_def)
qed

theorem calculate_age_whole_years_witness:
  "strptime (birth_date \<lparr>full_name = ''Ford Henry A.'', birth_date = ''1980-11-04'', gender = ''Male''\<rparr>)
     = Inr \<lparr>year = 1980, month = 11, day = 4\<rparr>
   \<and> calculate_age \<lparr>year = 2026, month = 11, day = 3\<rparr>
       \<lparr>full_name = ''Ford Henry A.'', birth_date = ''1980-11-04'', gender = ''Male''\<rparr> = Inr 45
   \<and> whole_years_elapsed \<lparr>year = 1980, month = 11, day = 4\<rparr> \<lparr>year = 2026, month = 11, day = 3\<rparr> 45"
proof -
  have h: "strptime (birth_date \<lparr>full_name = ''Ford Henry A.'', birth_date = ''1980-11-04'', gender = ''Male''\<rparr>)
             = Inr \<lparr>year = 1980, month = 11, day = 4\<rparr>"
    by code_simp
  from calculate_age_whole_years [OF h, of "\<lparr>year = 2026, month = 11, day = 3\<rparr>"] h
  show ?thesis by simp
qed

subsection \<open>Mode 2 without its arguments\<close>

text \<open>
  C6. When mode 2 is given fewer than three arguments after the mode, the run prints the
  usage line of mode 2 and returns normally: the only events are the connection, that
  line and the closing of the connection; no statement is executed and the database is
  as it was.
\<close>

theorem mode_2_missing_arguments:
  assumes "connect_ok env" and "2 \<le> length argv" and "argv ! 1 = ''2''" and "length argv < 5"
  shows "main env argv w = (Inr (), w\<lparr>trace := trace w @ [Connect, Stdout usage_mode_2, Close]\<rparr>)
       \<and> db (snd (main env argv w)) = db w
       \<and> executed (new_events w (snd (main env argv w))) = []"
  using assms by (simp add: main_def main_try_def world_ops new_events_def executed_def)

theorem mode_2_missing_arguments_witness:
  "connect_ok example_env
   \<and> main example_env [''employee_directory.py'', ''2'', ''Ford Henry A.'', ''1980-05-15''] created_world
       = (Inr (), created_world\<lparr>trace := [Connect, Stdout usage_mode_2, Close]\<rparr>)
   \<and> db (snd (main example_env [''employee_directory.py'', ''2'', ''Ford Henry A.'', ''1980-05-15''] created_world))
       = Some empty_table"
  using mode_2_missing_arguments [of example_env "[''employee_directory.py'', ''2'', ''Ford Henry A.'', ''1980-05-15'']" created_world]
  by (simp add: example_env_def created_world_def)

subsection \<open>Statements that create the schema\<close>

text \<open>
  C9. \<^verbatim>\<open>optimize_database\<close> on a database that has the index, and \<^verbatim>\<open>create_table\<close> on a
  database that has the table, raise nothing and leave the database as it is. Hence a
  second call after a successful first one raises nothing and changes nothing;
  \<^verbatim>\<open>create_table\<close> never raises.
\<close>

theorem schema_statements_idempotent:
  "(db w = Some t \<and> idx_gender_lastname t \<longrightarrow>
      fst (optimize_database env w) = Inr () \<and> db (snd (optimize_database env w)) = db w)
 \<and> (db w = Some t \<longrightarrow>
      fst (create_table env w) = Inr () \<and> db (snd (create_table env w)) = db w)
 \<and> (fst (optimize_database env w) = Inr () \<longrightarrow>
      fst (optimize_database env (snd (optimize_database env w))) = Inr ()
      \<and> db (snd (optimize_database env (snd (optimize_database env w)))) = db (snd (optimize_database env w)))
 \<and> fst (create_table env w) = Inr ()
 \<and> fst (create_table env (snd (create_table env w))) = Inr ()
 \<and> db (snd (create_table env (snd (create_table env w)))) = db (snd (create_table env w))"
  by (cases "db w") (auto simp: optimize_database_def create_table_def world_ops)

theorem schema_statements_idempotent_witness:
  "db created_world = Some empty_table
   \<and> fst (optimize_database example_env created_world) = Inr ()
   \<and> fst (optimize_database example_env (snd (optimize_database example_env created_world))) = Inr ()
   \<and> db (snd (optimize_database example_env (snd (optimize_database example_env created_world))))
       = db (snd (optimize_database example_env created_world))
   \<and> db (snd (optimize_database example_env created_world))
       = Some (empty_table\<lparr>idx_gender_lastname := True\<rparr>)
   \<and> db (snd (create_table example_env created_world)) = Some empty_table"
proof -
  have h: "db created_world = Some empty_table"
    by (simp add: created_world_def)
  have o: "fst (optimize_database example_env created_world) = Inr ()"
    by (simp add: optimize_database_def world_ops created_world_def)
  have d: "db (snd (optimize_database example_env created_world))
             = Some (empty_table\<lparr>idx_gender_lastname := True\<rparr>)"
    by (simp add: optimize_database_def world_ops created_world_def)
  from schema_statements_idempotent [of created_world empty_table example_env] h o d
  show ?thesis by simp
qed

subsection \<open>Mode 6\<close>





text \<open>
  C10. In mode 6 the improvement is the first measured time minus the second and the
  speedup their quotient, with no test of the divisor. With the clock readings
  \<open>t1, t2, t3, t4\<close> the two times are \<open>t2 - t1\<close> and \<open>t4 - t3\<close>; when the second is zero
  the run ends with \<^verbatim>\<open>ZeroDivisionError\<close> after both searches have run and prints no
  improvement line, and otherwise it prints the difference and the quotient.
\<close>

theorem mode_6_zero_division:
  assumes "connect_ok env" and "2 \<le> length argv" and "argv ! 1 = ''6''"
    and "db w = Some t" and "clock w = t1 # t2 # t3 # t4 # ts"
  shows "fst (main env argv w) = (if t4 - t3 = 0 then Inl ZeroDivisionError else Inr ())
       \<and> new_events w (snd (main env argv w)) =
           [Connect, Execute CREATE_INDEX, Commit,
            Stdout ''Database optimized with index on gender and full_name.'',
            Stdout ''Running performance test before and after optimization...'',
            Stdout (CHR 0x0A # ''Before optimization:''),
            Execute SELECT_MALE_F,
            Stdout (found_message (length (select_male_f (table_rows t)))),
            Stdout_execution_time (t2 - t1),
            Stdout (CHR 0x0A # ''After optimization:''),
            Execute SELECT_MALE_F,
            Stdout (found_message (length (select_male_f (table_rows t)))),
            Stdout_execution_time (t4 - t3)]
           @ (if t4 - t3 = 0 then []
              else [Stdout_improvement ((t2 - t1) - (t4 - t3)) ((t2 - t1) / (t4 - t3))])
           @ [Close]"
  using assms
  by (simp add: main_def main_try_def optimize_with_table search_two_readings
      report_improvement_def world_ops new_events_def)

theorem mode_6_zero_division_witness:
  "connect_ok example_env \<and> db created_world = Some empty_table
   \<and> clock created_world = [10, 12, 15, 15]
   \<and> fst (main example_env [''employee_directory.py'', ''6''] created_world) = Inl ZeroDivisionError
   \<and> executed (new_events created_world
        (snd (main example_env [''employee_directory.py'', ''6''] created_world)))
       = [CREATE_INDEX, SELECT_MALE_F, SELECT_MALE_F]"
proof -
  have h: "connect_ok example_env" "db created_world = Some empty_table"
    "clock created_world = [10, 12, 15, 15]"
    by (simp_all add: example_env_def created_world_def)
  from mode_6_zero_division [of example_env "[''employee_directory.py'', ''6'']" created_world
      empty_table 10 12 15 15 "[]"] h
  show ?thesis by (simp add: executed_def)
qed

subsection \<open>The connection is closed once\<close>

text \<open>
  C7. In every run that constructs the store (a mode is given and the connection
  succeeds), whatever the mode and whether the operation returns or raises, the events
  of the run contain \<open>Close\<close> exactly once, as the last event.
\<close>

theorem close_exactly_once:
  assumes "2 \<le> length argv" and "connect_ok env"
  shows "take (length (trace w)) (trace (snd (main env argv w))) = trace w
       \<and> count_list (new_events w (snd (main env argv w))) Close = 1
       \<and> last (new_events w (snd (main env argv w))) = Close"
proof -
  obtain res w1 where t: "main_try env argv (emit Connect w) = (res, w1)"
    by (cases "main_try env argv (emit Connect w)")
  have "quiet_step (emit Connect w) w1"
    using quiet_main_try [of "emit Connect w" env argv] t by simp
  then obtain evs where e: "trace w1 = trace w @ Connect # evs" and c: "Close \<notin> set evs"
    by (auto simp: quiet_step_def emit_def)
  have m: "main env argv w = (res, close w1)"
    using assms t by (simp add: main_def)
  have n: "new_events w (close w1) = Connect # evs @ [Close]"
    by (simp add: new_events_def close_def emit_def e)
  have "count_list (Connect # evs @ [Close]) Close = 1"
    using c by (simp add: count_list_0_iff)
  then show ?thesis
    by (simp add: m n) (simp add: close_def emit_def e)
qed

theorem close_exactly_once_witness:
  "connect_ok example_env
   \<and> fst (main example_env [''employee_directory.py'', ''6''] fresh_world) = Inl OperationalError
   \<and> count_list (new_events fresh_world
        (snd (main example_env [''employee_directory.py'', ''6''] fresh_world))) Close = 1
   \<and> last (new_events fresh_world
        (snd (main example_env [''employee_directory.py'', ''6''] fresh_world))) = Close"
proof -
  have h: "connect_ok example_env" "2 \<le> length [''employee_directory.py'', ''6'']"
    by (simp_all add: example_env_def)
  have r: "fst (main example_env [''employee_directory.py'', ''6''] fresh_world)
             = Inl OperationalError"
    by (simp add: main_def main_try_def optimize_database_def world_ops example_env_def
        fresh_world_def)
  from close_exactly_once [OF h(2) h(1), of fresh_world] h r
  show ?thesis by simp
qed

subsection \<open>The deduplicated listing\<close>

text \<open>
  C2, as the program behaves. On a table whose stored birth dates all parse as calendar
  dates, \<^verbatim>\<open>get_all_unique_employees\<close> returns normally and prints exactly one line for each
  row of its query, in the order of the query: one row for each pair of name and birth
  date among the stored rows, in non-decreasing order of the name, whatever the genders
  and ids, each row a stored row. After two inserts with the same name, the same birth
  date (a date) and different genders into an empty table it prints exactly one line,
  with one of the two genders; after the batch insert of \<open>N\<close> employees with pairwise
  different pairs and birth dates that are dates into an empty table it prints \<open>N\<close>
  lines, one for each employee, in non-decreasing order of the name. Without the
  condition on the birth dates the listing does not yield the rows: in the
  counterexample two rows with the same name, the birth date \<^verbatim>\<open>unknown\<close> and different
  genders are stored, and the listing prints no line and raises \<^verbatim>\<open>ValueError\<close>.
\<close>

theorem listing_groups_by_name_and_birth_date:
  "(db w = Some t \<and> (\<forall>r\<in>set (table_rows t). \<exists>bd. strptime (birth_date (snd r)) = Inr bd) \<longrightarrow>
      (\<exists>rows ages.
          rows = select_unique (bare_row env) (table_rows t)
        \<and> map (calculate_age (date_today env)) rows = map Inr ages
        \<and> get_all_unique_employees env w
            = (Inr (), w\<lparr>trace := trace w @ Execute SELECT_UNIQUE
                 # map Stdout (map2 listing_line rows ages)\<rparr>)
        \<and> stdout_lines (new_events w (snd (get_all_unique_employees env w)))
            = map2 listing_line rows ages
        \<and> sorted (map full_name rows)
        \<and> distinct (map (\<lambda>e. (full_name e, birth_date e)) rows)
        \<and> set (map (\<lambda>e. (full_name e, birth_date e)) rows) = group_key ` set (table_rows t)
        \<and> set rows \<subseteq> snd ` set (table_rows t)))
 \<and> (db w = Some t \<and> table_rows t = [] \<and> g1 \<noteq> g2 \<and> strptime b = Inr bd
      \<and> w2 = snd (add_employee env n b g2 (snd (add_employee env n b g1 w))) \<longrightarrow>
      (\<exists>g age. (g = g1 \<or> g = g2)
         \<and> calculate_age (date_today env) \<lparr>full_name = n, birth_date = b, gender = g\<rparr> = Inr age
         \<and> fst (get_all_unique_employees env w2) = Inr ()
         \<and> stdout_lines (new_events w2 (snd (get_all_unique_employees env w2)))
             = [listing_line \<lparr>full_name = n, birth_date = b, gender = g\<rparr> age]))
 \<and> (db w = Some t \<and> table_rows t = []
      \<and> distinct (map (\<lambda>e. (full_name e, birth_date e)) es)
      \<and> (\<forall>e\<in>set es. \<exists>bd. strptime (birth_date e) = Inr bd)
      \<and> w1 = snd (batch_add_employees env es w) \<longrightarrow>
      (\<exists>rows ages. set rows = set es \<and> length rows = length es
         \<and> sorted (map full_name rows)
         \<and> map (calculate_age (date_today env)) rows = map Inr ages
         \<and> fst (get_all_unique_employees env w1) = Inr ()
         \<and> stdout_lines (new_events w1 (snd (get_all_unique_employees env w1)))
             = map2 listing_line rows ages))"
proof (intro conjI impI)
  assume a: "db w = Some t \<and> (\<forall>r\<in>set (table_rows t). \<exists>bd. strptime (birth_date (snd r)) = Inr bd)"
  define rows where "rows = select_unique (bare_row env) (table_rows t)"
  from a listing_run [of w t env]
  obtain ages where ages: "map (calculate_age (date_today env)) rows = map Inr ages"
    and run: "get_all_unique_employees env w
            = (Inr (), w\<lparr>trace := trace w @ Execute SELECT_UNIQUE
                 # map Stdout (map2 listing_line rows ages)\<rparr>)"
    unfolding rows_def by blast
  have out: "stdout_lines (new_events w (snd (get_all_unique_employees env w)))
            = map2 listing_line rows ages"
    unfolding run by (simp only: snd_conv new_events_update stdout_lines_listing)
  have s: "sorted (map full_name rows)"
    by (simp add: rows_def select_unique_names sorted_map_fst)
  have d: "distinct (map (\<lambda>e. (full_name e, birth_date e)) rows)"
    by (simp add: rows_def select_unique_keys)
  have k: "set (map (\<lambda>e. (full_name e, birth_date e)) rows) = group_key ` set (table_rows t)"
    by (simp add: rows_def select_unique_keys)
  have m: "set rows \<subseteq> snd ` set (table_rows t)"
    using select_unique_stored by (auto simp: rows_def)
  show "\<exists>rows ages.
          rows = select_unique (bare_row env) (table_rows t)
        \<and> map (calculate_age (date_today env)) rows = map Inr ages
        \<and> get_all_unique_employees env w
            = (Inr (), w\<lparr>trace := trace w @ Execute SELECT_UNIQUE
                 # map Stdout (map2 listing_line rows ages)\<rparr>)
        \<and> stdout_lines (new_events w (snd (get_all_unique_employees env w)))
            = map2 listing_line rows ages
        \<and> sorted (map full_name rows)
        \<and> distinct (map (\<lambda>e. (full_name e, birth_date e)) rows)
        \<and> set (map (\<lambda>e. (full_name e, birth_date e)) rows) = group_key ` set (table_rows t)
        \<and> set rows \<subseteq> snd ` set (table_rows t)"
    using rows_def ages run out s d k m by blast
next
  assume a: "db w = Some t \<and> table_rows t = [] \<and> g1 \<noteq> g2 \<and> strptime b = Inr bd
      \<and> w2 = snd (add_employee env n b g2 (snd (add_employee env n b g1 w)))"
  define e1 where "e1 = \<lparr>full_name = n, birth_date = b, gender = g1\<rparr>"
  define e2 where "e2 = \<lparr>full_name = n, birth_date = b, gender = g2\<rparr>"
  define r1 where "r1 = (sqlite_sequence t + 1, e1)"
  define r2 where "r2 = (sqlite_sequence t + 1 + 1, e2)"
  define t2 where "t2 = insert_row (insert_row t e1) e2"
  have d1: "db (snd (add_employee env n b g1 w)) = Some (insert_row t e1)"
    using a by (simp add: add_employee_with_table e1_def)
  have d2: "db w2 = Some t2"
    using a add_employee_with_table [OF d1, of env n b g2] by (simp add: t2_def e2_def)
  have rows: "table_rows t2 = [r1, r2]"
    using a by (simp add: t2_def insert_row_def r1_def r2_def)
  have p: "\<forall>r\<in>set (table_rows t2). \<exists>bd. strptime (birth_date (snd r)) = Inr bd"
    using a by (simp add: rows r1_def r2_def e1_def e2_def)
  define g where "g = [r1, r2]"
  define c where "c = gender (snd (g ! (bare_row env g mod length g)))"
  have sel: "select_unique (bare_row env) (table_rows t2)
               = [\<lparr>full_name = n, birth_date = b, gender = c\<rparr>]"
    unfolding rows
    by (simp add: select_unique_def group_key_def Let_def g_def c_def r1_def r2_def e1_def e2_def)
  have "bare_row env g mod length g < length g"
    by (simp add: g_def)
  then have "g ! (bare_row env g mod length g) \<in> set g"
    by (rule nth_mem)
  then have c: "c = g1 \<or> c = g2"
    by (auto simp: c_def g_def r1_def r2_def e1_def e2_def)
  from listing_run [OF d2 p, of env]
  obtain ages where ages: "map (calculate_age (date_today env))
         [\<lparr>full_name = n, birth_date = b, gender = c\<rparr>] = map Inr ages"
    and run: "get_all_unique_employees env w2
               = (Inr (), w2\<lparr>trace := trace w2 @ Execute SELECT_UNIQUE
                    # map Stdout (map2 listing_line
                        [\<lparr>full_name = n, birth_date = b, gender = c\<rparr>] ages)\<rparr>)"
    unfolding sel by blast
  from ages obtain age where age: "ages = [age]"
    and ca: "calculate_age (date_today env) \<lparr>full_name = n, birth_date = b, gender = c\<rparr> = Inr age"
    by (cases ages) auto
  have "fst (get_all_unique_employees env w2) = Inr ()"
    and "stdout_lines (new_events w2 (snd (get_all_unique_employees env w2)))
             = [listing_line \<lparr>full_name = n, birth_date = b, gender = c\<rparr> age]"
    unfolding run age
    by (simp_all only: fst_conv snd_conv new_events_update stdout_lines_listing) simp
  then show "\<exists>g age. (g = g1 \<or> g = g2)
         \<and> calculate_age (date_today env) \<lparr>full_name = n, birth_date = b, gender = g\<rparr> = Inr age
         \<and> fst (get_all_unique_employees env w2) = Inr ()
         \<and> stdout_lines (new_events w2 (snd (get_all_unique_employees env w2)))
             = [listing_line \<lparr>full_name = n, birth_date = b, gender = g\<rparr> age]"
    using c ca by blast
next
  assume a: "db w = Some t \<and> table_rows t = []
      \<and> distinct (map (\<lambda>e. (full_name e, birth_date e)) es)
      \<and> (\<forall>e\<in>set es. \<exists>bd. strptime (birth_date e) = Inr bd)
      \<and> w1 = snd (batch_add_employees env es w)"
  define t1 where "t1 = foldl insert_row t es"
  have d1: "db w1 = Some t1"
    using a by (simp add: batch_add_with_table t1_def)
  have stored: "map snd (table_rows t1) = es"
    using a by (simp add: t1_def table_rows_foldl_insert_row)
  then have img: "snd ` set (table_rows t1) = set es"
    by (metis set_map)
  have p: "\<forall>r\<in>set (table_rows t1). \<exists>bd. strptime (birth_date (snd r)) = Inr bd"
    using a img by auto
  have "map group_key (table_rows t1)
          = map (\<lambda>e. (full_name e, birth_date e)) (map snd (table_rows t1))"
    by (simp add: group_key_def comp_def)
  then have keys: "distinct (map group_key (table_rows t1))"
    using a by (simp only: stored)
  define rows where "rows = select_unique (bare_row env) (table_rows t1)"
  from listing_run [OF d1 p, of env]
  obtain ages where ages: "map (calculate_age (date_today env)) rows = map Inr ages"
    and run: "get_all_unique_employees env w1
               = (Inr (), w1\<lparr>trace := trace w1 @ Execute SELECT_UNIQUE
                    # map Stdout (map2 listing_line rows ages)\<rparr>)"
    unfolding rows_def by blast
  have s1: "set rows = set es"
    using select_unique_all_stored [OF keys, of "bare_row env"] img by (simp add: rows_def)
  have "remdups (map group_key (table_rows t1)) = map group_key (table_rows t1)"
    using keys by (rule distinct_remdups_id)
  then have "length rows = length (table_rows t1)"
    by (simp only: rows_def select_unique_length length_map)
  also have "\<dots> = length es"
    using stored by (metis length_map)
  finally have l: "length rows = length es" .
  have s: "sorted (map full_name rows)"
    by (simp add: rows_def select_unique_names sorted_map_fst)
  have "fst (get_all_unique_employees env w1) = Inr ()"
    and "stdout_lines (new_events w1 (snd (get_all_unique_employees env w1)))
             = map2 listing_line rows ages"
    unfolding run by (simp_all only: fst_conv snd_conv new_events_update stdout_lines_listing)
  then show "\<exists>rows ages. set rows = set es \<and> length rows = length es
         \<and> sorted (map full_name rows)
         \<and> map (calculate_age (date_today env)) rows = map Inr ages
         \<and> fst (get_all_unique_employees env w1) = Inr ()
         \<and> stdout_lines (new_events w1 (snd (get_all_unique_employees env w1)))
             = map2 listing_line rows ages"
    using s1 l s ages by blast
qed

theorem listing_groups_by_name_and_birth_date_witness:
  "db created_world = Some empty_table \<and> table_rows empty_table = []
   \<and> strptime ''1980-05-15'' = Inr \<lparr>year = 1980, month = 5, day = 15\<rparr>
   \<and> fst (get_all_unique_employees example_env ford_twice) = Inr ()
   \<and> stdout_lines (new_events ford_twice (snd (get_all_unique_employees example_env ford_twice)))
       = [''Name: Ford Henry A., Birth Date: 1980-05-15, Gender: Male, Age: 46'']
   \<and> fst (get_all_unique_employees example_env three_added) = Inr ()
   \<and> length (stdout_lines (new_events three_added
        (snd (get_all_unique_employees example_env three_added)))) = 3"
proof -
  have h: "db created_world = Some empty_table" "table_rows empty_table = []"
    "''Male'' \<noteq> ''Female''"
    by (simp_all add: created_world_def empty_table_def)
  have p: "strptime ''1980-05-15'' = Inr \<lparr>year = 1980, month = 5, day = 15\<rparr>"
    "strptime ''1990-01-02'' = Inr \<lparr>year = 1990, month = 1, day = 2\<rparr>"
    "strptime ''1981-05-15'' = Inr \<lparr>year = 1981, month = 5, day = 15\<rparr>"
    by code_simp+
  have k: "distinct (map (\<lambda>e. (full_name e, birth_date e)) three_employees)"
    by (simp add: three_employees_def)
  have q: "\<forall>e\<in>set three_employees. \<exists>bd. strptime (birth_date e) = Inr bd"
    by (simp add: three_employees_def p)
  note t = listing_groups_by_name_and_birth_date [where w = created_world and t = empty_table
      and env = example_env and ?g1.0 = "''Male''" and ?g2.0 = "''Female''"
      and b = "''1980-05-15''" and bd = "\<lparr>year = 1980, month = 5, day = 15\<rparr>"
      and n = "''Ford Henry A.''" and ?w2.0 = ford_twice and es = three_employees
      and ?w1.0 = three_added]
  from t h p(1) obtain g age where
    g: "g = ''Male'' \<or> g = ''Female''"
    and one: "fst (get_all_unique_employees example_env ford_twice) = Inr ()"
      "stdout_lines (new_events ford_twice (snd (get_all_unique_employees example_env ford_twice)))
         = [listing_line \<lparr>full_name = ''Ford Henry A.'', birth_date = ''1980-05-15'', gender = g\<rparr> age]"
    by (auto simp: ford_twice_def)
  from t h k q obtain rows ages where
    l: "length rows = length three_employees"
    and a: "map (calculate_age (date_today example_env)) rows = map Inr ages"
    and three: "fst (get_all_unique_employees example_env three_added) = Inr ()"
      "stdout_lines (new_events three_added (snd (get_all_unique_employees example_env three_added)))
         = map2 listing_line rows ages"
    by (auto simp: three_added_def)
  have "length ages = length rows"
    using a by (metis length_map)
  then have l3: "length (stdout_lines (new_events three_added
        (snd (get_all_unique_employees example_env three_added)))) = 3"
    using l three(2) by (simp add: three_employees_def)
  have d: "db ford_twice
     = Some \<lparr>table_rows =
               [(1, \<lparr>full_name = ''Ford Henry A.'', birth_date = ''1980-05-15'', gender = ''Male''\<rparr>),
                (2, \<lparr>full_name = ''Ford Henry A.'', birth_date = ''1980-05-15'', gender = ''Female''\<rparr>)],
             sqlite_sequence = 2, idx_gender_lastname = False\<rparr>"
    by (simp add: ford_twice_def add_employee_def world_ops Let_def created_world_def
        empty_table_def insert_row_def)
  have s: "str_int 46 = ''46''"
    by code_simp
  have c: "calculate_age (date_today example_env)
             \<lparr>full_name = ''Ford Henry A.'', birth_date = ''1980-05-15'', gender = ''Male''\<rparr>
             = Inr 46"
    by (simp add: calculate_age_def p(1) Let_def example_env_def)
  have r: "get_all_unique_employees example_env ford_twice
             = (Inr (), py_print ''Name: Ford Henry A., Birth Date: 1980-05-15, Gender: Male, Age: 46''
                  (emit (Execute SELECT_UNIQUE) ford_twice))"
    using d
    by (simp add: get_all_unique_employees_def execute_def select_unique_def group_key_def
        Let_def first_row_def c emit_def update_db_same listing_line_def s
        example_env_def [THEN arg_cong, of bare_row])
  have line: "stdout_lines (new_events ford_twice
        (snd (get_all_unique_employees example_env ford_twice)))
       = [''Name: Ford Henry A., Birth Date: 1980-05-15, Gender: Male, Age: 46'']"
    unfolding r by (simp add: new_events_def py_print_def emit_def stdout_lines_def)
  show ?thesis
    using h p(1) one(1) line three(1) l3 by simp
qed

theorem listing_groups_by_name_and_birth_date_counterexample:
  "db unparsed_added
     = Some \<lparr>table_rows =
               [(1, \<lparr>full_name = ''Ford Henry A.'', birth_date = ''unknown'', gender = ''Male''\<rparr>),
                (2, \<lparr>full_name = ''Ford Henry A.'', birth_date = ''unknown'', gender = ''Female''\<rparr>)],
             sqlite_sequence = 2, idx_gender_lastname = False\<rparr>
   \<and> fst (get_all_unique_employees example_env unparsed_added) = Inl ValueError
   \<and> stdout_lines (new_events unparsed_added
        (snd (get_all_unique_employees example_env unparsed_added))) = []"
proof -
  have d: "db unparsed_added
     = Some \<lparr>table_rows =
               [(1, \<lparr>full_name = ''Ford Henry A.'', birth_date = ''unknown'', gender = ''Male''\<rparr>),
                (2, \<lparr>full_name = ''Ford Henry A.'', birth_date = ''unknown'', gender = ''Female''\<rparr>)],
             sqlite_sequence = 2, idx_gender_lastname = False\<rparr>"
    by (simp add: unparsed_added_def add_employee_def world_ops Let_def created_world_def
        empty_table_def insert_row_def)
  have a: "calculate_age today
             \<lparr>full_name = ''Ford Henry A.'', birth_date = ''unknown'', gender = ''Male''\<rparr>
             = Inl ValueError" for today
    by (simp add: calculate_age_def strptime_unknown)
  have r: "get_all_unique_employees example_env unparsed_added
             = (Inl ValueError, emit (Execute SELECT_UNIQUE) unparsed_added)"
    using d
    by (simp add: get_all_unique_employees_def execute_def select_unique_def group_key_def
        Let_def example_env_def first_row_def a emit_def update_db_same)
  show ?thesis
    using d unfolding r by (simp add: new_events_def emit_def stdout_lines_def)
qed

subsection \<open>Create, add, list\<close>

text \<open>
  C5, as the program behaves. On a database without stored rows, mode 1, then mode 2
  with \<^verbatim>\<open>Ford Henry A.\<close>, \<^verbatim>\<open>1980-05-15\<close>, \<^verbatim>\<open>Male\<close>, then mode 3: the third run returns
  normally and its output is the single line
  \<^verbatim>\<open>Name: Ford Henry A., Birth Date: 1980-05-15, Gender: Male, Age: \<close> followed by the
  age on the current date, which is the current year minus 1980, less one before
  15 May. The line the program prints labels each field; the text
  \<^verbatim>\<open>Ford Henry A., 1980-05-15, Male, age=\<close> does not occur in it, as the counterexample
  shows on 3 November 2026.
\<close>

theorem end_to_end_listing:
  assumes "connect_ok env"
    and "db w0 = None \<or> (\<exists>t. db w0 = Some t \<and> table_rows t = [])"
    and "w1 = snd (main env [p1, ''1''] w0)"
    and "w2 = snd (main env [p2, ''2'', ''Ford Henry A.'', ''1980-05-15'', ''Male''] w1)"
    and "w3 = snd (main env [p3, ''3''] w2)"
  shows "fst (main env [p3, ''3''] w2) = Inr ()
       \<and> stdout_lines (new_events w2 w3)
           = [''Name: Ford Henry A., Birth Date: 1980-05-15, Gender: Male, Age: ''
              @ str_int (year (date_today env) - 1980
                  - (if (month (date_today env), day (date_today env)) < (5, 15) then 1 else 0))]"
  unfolding assms(5)
  by (simp add: listing_after_create_and_add [OF assms(1-4) refl] new_events_def
      stdout_lines_def listing_line_def ford_def)

theorem end_to_end_listing_witness:
  "connect_ok example_env \<and> db fresh_world = None
   \<and> fst (main example_env [''employee_directory.py'', ''3''] scenario_added) = Inr ()
   \<and> stdout_lines (new_events scenario_added scenario_listed)
       = [''Name: Ford Henry A., Birth Date: 1980-05-15, Gender: Male, Age: 46'']"
proof -
  have h: "connect_ok example_env" "db fresh_world = None"
    by (simp_all add: example_env_def fresh_world_def)
  have d: "date_today example_env = \<lparr>year = 2026, month = 11, day = 3\<rparr>"
    by (simp add: example_env_def)
  have s: "str_int 46 = ''46''"
    by code_simp
  from end_to_end_listing [of example_env fresh_world scenario_created
      "''employee_directory.py''" scenario_added "''employee_directory.py''" scenario_listed
      "''employee_directory.py''"] h
  show ?thesis
    by (simp add: scenario_created_def scenario_added_def scenario_listed_def d s)
qed

theorem end_to_end_listing_counterexample:
  "stdout_lines (new_events scenario_added scenario_listed)
     = [''Name: Ford Henry A., Birth Date: 1980-05-15, Gender: Male, Age: 46'']
   \<and> \<not> contains ''Name: Ford Henry A., Birth Date: 1980-05-15, Gender: Male, Age: 46''
         ''Ford Henry A., 1980-05-15, Male, age=''"
proof -
  have h: "connect_ok example_env" "db fresh_world = None \<or> (\<exists>t. db fresh_world = Some t \<and> table_rows t = [])"
    by (simp_all add: example_env_def fresh_world_def)
  have s: "str_int 46 = ''46''"
    by code_simp
  have a: "46 = year (date_today example_env) - 1980
               - (if (month (date_today example_env), day (date_today example_env)) < (5, 15)
                  then 1 else 0)"
    by (simp add: example_env_def)
  have "stdout_lines (new_events scenario_added scenario_listed)
     = [''Name: Ford Henry A., Birth Date: 1980-05-15, Gender: Male, Age: 46'']"
    unfolding scenario_listed_def
    by (simp add: listing_after_create_and_add [OF h scenario_created_def scenario_added_def a]
        new_events_def stdout_lines_def listing_line_def ford_def s)
  moreover have "\<not> contains ''Name: Ford Henry A., Birth Date: 1980-05-15, Gender: Male, Age: 46''
         ''Ford Henry A., 1980-05-15, Male, age=''"
    by simp
  ultimately show ?thesis
    by simp
qed

subsection \<open>Bulk generation\<close>

text \<open>
  C3. On a database that has the table, \<^verbatim>\<open>generate_random_employees(count)\<close> returns
  normally for every \<open>count\<close>. With \<open>es\<close> the \<open>count\<close> records the first loop draws (none
  for a negative \<open>count\<close>) and \<open>fs\<close> the records of the second loop, the batch inserts of
  the run are \<open>es\<close> cut into pieces of 10000, every piece but the last one full and none
  empty, followed by the one batch \<open>fs\<close> of exactly 100 records. Every record of \<open>fs\<close> is
  male and named \<open>F\<close> and a suffix of the list, a male first name and a middle initial;
  no record of \<open>es\<close> has such a name. The table then holds its old rows, \<open>es\<close> and \<open>fs\<close>:
  at least \<open>count\<close> new rows and exactly 100 rows of the \<open>F\<close> pattern among the new ones.
\<close>

theorem generate_random_employees_stores:
  assumes "db w = Some t"
    and "random_employees (nat count) (rng w) = (es, r1)"
    and "f_loop 100 [] r1 = (fs, r2)"
    and "generate_random_employees env count w = (res, w')"
  shows "res = Inr ()
       \<and> length es = nat count \<and> count \<le> int (length es) \<and> length fs = 100
       \<and> batches (new_events w w') = chunks 10000 es @ [fs]
       \<and> concat (chunks 10000 es) = es
       \<and> (\<forall>b\<in>set (chunks 10000 es). b \<noteq> [] \<and> length b \<le> 10000)
       \<and> (\<forall>b\<in>set (butlast (chunks 10000 es)). length b = 10000)
       \<and> (\<exists>t'. db w' = Some t' \<and> map snd (table_rows t') = map snd (table_rows t) @ es @ fs)
       \<and> (\<forall>e\<in>set fs. gender e = ''Male'' \<and> f_pattern (full_name e))
       \<and> (\<forall>e\<in>set es. \<not> f_pattern (full_name e))
       \<and> filter (\<lambda>e. f_pattern (full_name e)) (es @ fs) = fs"
proof -
  from generate_run [OF assms(1-3), of env] assms(4)
  have res: "res = Inr ()"
    and d: "db w' = Some (foldl insert_row t (es @ fs))"
    and tr: "trace w' = trace w @ concat (map batch_events (chunks 10000 es @ [fs]))
               @ [Stdout ''Finished generating random employees.'']"
    by auto
  have le: "length es = nat count"
    using random_employees_length [of "nat count" "rng w"] assms(2) by simp
  have lf: "length fs = 100"
    using f_loop_length [of 100 "[]" r1] assms(3) by simp
  have b: "batches (new_events w w') = chunks 10000 es @ [fs]"
    unfolding new_events_append [OF tr] batches_append batches_concat_batch_events by simp
  have rows: "\<exists>t'. db w' = Some t' \<and> map snd (table_rows t') = map snd (table_rows t) @ es @ fs"
    using d by (simp add: table_rows_foldl_insert_row)
  have f: "gender e = ''Male'' \<and> f_pattern (full_name e)" if "e \<in> set fs" for e
  proof -
    have "e \<in> set (fst (f_loop 100 [] r1))"
      using that assms(3) by simp
    then obtain r' where "e = fst (random_f_employee r')"
      using f_loop_members by fastforce
    then show ?thesis
      using random_f_employee_props [of r'] by simp
  qed
  have g: "\<not> f_pattern (full_name e)" if "e \<in> set es" for e
  proof -
    have "e \<in> set (fst (random_employees (nat count) (rng w)))"
      using that assms(2) by simp
    then obtain r' where "e = fst (random_employee r')"
      using random_employees_members by blast
    then show ?thesis
      using random_employee_not_f by simp
  qed
  have fl: "filter (\<lambda>e. f_pattern (full_name e)) (es @ fs) = fs"
    using f g by (simp add: filter_empty_conv filter_id_conv)
  show ?thesis
    using res le lf b rows f g fl concat_chunks [of 10000 es]
      chunks_sizes [of 10000 _ es] chunks_butlast_full [of 10000 _ es]
    by (intro conjI ballI) simp_all
qed

theorem generate_random_employees_stores_witness:
  "db created_world = Some empty_table
   \<and> fst (generate_random_employees example_env 2 created_world) = Inr ()
   \<and> map length (batches (new_events created_world
        (snd (generate_random_employees example_env 2 created_world)))) = [2, 100]"
proof -
  have h: "db created_world = Some empty_table"
    by (simp add: created_world_def)
  define es where "es = fst (random_employees (nat 2) (rng created_world))"
  define r1 where "r1 = snd (random_employees (nat 2) (rng created_world))"
  define fs where "fs = fst (f_loop 100 [] r1)"
  define r2 where "r2 = snd (f_loop 100 [] r1)"
  have a: "random_employees (nat 2) (rng created_world) = (es, r1)"
    and b: "f_loop 100 [] r1 = (fs, r2)"
    by (simp_all add: es_def r1_def fs_def r2_def)
  have c: "generate_random_employees example_env 2 created_world
             = (fst (generate_random_employees example_env 2 created_world),
                snd (generate_random_employees example_env 2 created_world))"
    by simp
  from generate_random_employees_stores [OF h a b c]
  have res: "fst (generate_random_employees example_env 2 created_world) = Inr ()"
    and le: "length es = 2" and lf: "length fs = 100"
    and bs: "batches (new_events created_world
        (snd (generate_random_employees example_env 2 created_world))) = chunks 10000 es @ [fs]"
    by simp_all
  have "es \<noteq> []" and "length es \<le> 10000"
    using le by auto
  then have "chunks 10000 es = [es]"
    by (rule chunks_short)
  then show ?thesis
    using h res le lf bs by simp
qed

text \<open>
  C8. On a database that has the table, every row that \<^verbatim>\<open>generate_random_employees\<close>
  stores (\<open>count\<close> and 100 of them) has a birth date made of a year in 1950..2005, a
  month in 1..12 and a day in 1..28, written as the year, a hyphen, the month with two
  digits, a hyphen and the day with two digits, ten characters in all; \<^verbatim>\<open>strptime\<close>
  reads that date back, so \<^verbatim>\<open>calculate_age\<close> returns an age for the row on every day and
  never raises.
\<close>

theorem generated_birth_dates_parse:
  assumes "db w = Some t"
    and "generate_random_employees env count w = (res, w')"
  shows "\<exists>t'. db w' = Some t'
       \<and> length (table_rows t') = length (table_rows t) + nat count + 100
       \<and> (\<forall>e\<in>set (drop (length (table_rows t)) (map snd (table_rows t'))).
            \<exists>y m d. 1950 \<le> y \<and> y \<le> 2005 \<and> 1 \<le> m \<and> m \<le> 12 \<and> 1 \<le> d \<and> d \<le> 28
              \<and> birth_date e = str_int y @ ''-'' @ fmt_02d m @ ''-'' @ fmt_02d d
              \<and> length (birth_date e) = 10
              \<and> strptime (birth_date e) = Inr \<lparr>year = y, month = m, day = d\<rparr>
              \<and> (\<forall>today. calculate_age today e
                    = Inr (year today - y - (if (month today, day today) < (m, d) then 1 else 0))))"
proof -
  obtain es r1 where a: "random_employees (nat count) (rng w) = (es, r1)"
    by (cases "random_employees (nat count) (rng w)")
  obtain fs r2 where b: "f_loop 100 [] r1 = (fs, r2)"
    by (cases "f_loop 100 [] r1")
  define t' where "t' = foldl insert_row t (es @ fs)"
  from generate_run [OF assms(1) a b, of env] assms(2)
  have d: "db w' = Some t'"
    by (auto simp: t'_def)
  have rows: "map snd (table_rows t') = map snd (table_rows t) @ es @ fs"
    by (simp add: t'_def table_rows_foldl_insert_row)
  have le: "length es = nat count"
    using random_employees_length [of "nat count" "rng w"] a by simp
  have lf: "length fs = 100"
    using f_loop_length [of 100 "[]" r1] b by simp
  have "length (map snd (table_rows t')) = length (table_rows t) + nat count + 100"
    unfolding rows using le lf by simp
  then have len: "length (table_rows t') = length (table_rows t) + nat count + 100"
    by simp
  have new: "drop (length (table_rows t)) (map snd (table_rows t')) = es @ fs"
    unfolding rows by simp
  have "\<exists>r'. birth_date e = fst (random_birth_date r')" if "e \<in> set (es @ fs)" for e
  proof -
    from that have "e \<in> set (fst (random_employees (nat count) (rng w)))
        \<or> e \<in> set (fst (f_loop 100 [] r1))"
      using a b by auto
    then show ?thesis
    proof
      assume "e \<in> set (fst (random_employees (nat count) (rng w)))"
      then obtain r' where "e = fst (random_employee r')"
        using random_employees_members by blast
      then show ?thesis
        using random_employee_props [of r'] by simp
    next
      assume "e \<in> set (fst (f_loop 100 [] r1))"
      then obtain r' where "e = fst (random_f_employee r')"
        using f_loop_members by fastforce
      then show ?thesis
        using random_f_employee_props [of r'] by simp
    qed
  qed
  then have "\<forall>e\<in>set (drop (length (table_rows t)) (map snd (table_rows t'))).
            \<exists>y m d. 1950 \<le> y \<and> y \<le> 2005 \<and> 1 \<le> m \<and> m \<le> 12 \<and> 1 \<le> d \<and> d \<le> 28
              \<and> birth_date e = str_int y @ ''-'' @ fmt_02d m @ ''-'' @ fmt_02d d
              \<and> length (birth_date e) = 10
              \<and> strptime (birth_date e) = Inr \<lparr>year = y, month = m, day = d\<rparr>
              \<and> (\<forall>today. calculate_age today e
                    = Inr (year today - y - (if (month today, day today) < (m, d) then 1 else 0)))"
    unfolding new using birth_date_of_generation_parses by blast
  then show ?thesis
    using d len by blast
qed

theorem generated_birth_dates_parse_witness:
  "db created_world = Some empty_table
   \<and> (\<exists>t'. db (snd (generate_random_employees example_env 1 created_world)) = Some t'
         \<and> length (table_rows t') = 101
         \<and> (\<exists>y m d. strptime (birth_date (snd (hd (table_rows t'))))
                        = Inr \<lparr>year = y, month = m, day = d\<rparr>
               \<and> 1950 \<le> y \<and> y \<le> 2005))"
proof -
  have h: "db created_world = Some empty_table"
    by (simp add: created_world_def)
  have c: "generate_random_employees example_env 1 created_world
             = (fst (generate_random_employees example_env 1 created_world),
                snd (generate_random_employees example_env 1 created_world))"
    by simp
  from generated_birth_dates_parse [OF h c]
  obtain t' where d: "db (snd (generate_random_employees example_env 1 created_world)) = Some t'"
    and l: "length (table_rows t') = 101"
    and p: "\<forall>e\<in>set (map snd (table_rows t')).
            \<exists>y m d. 1950 \<le> y \<and> y \<le> 2005 \<and> 1 \<le> m \<and> m \<le> 12 \<and> 1 \<le> d \<and> d \<le> 28
              \<and> birth_date e = str_int y @ ''-'' @ fmt_02d m @ ''-'' @ fmt_02d d
              \<and> length (birth_date e) = 10
              \<and> strptime (birth_date e) = Inr \<lparr>year = y, month = m, day = d\<rparr>
              \<and> (\<forall>today. calculate_age today e
                    = Inr (year today - y - (if (month today, day today) < (m, d) then 1 else 0)))"
    by (auto simp: empty_table_def)
  have "table_rows t' \<noteq> []"
    using l by auto
  then have "snd (hd (table_rows t')) \<in> set (map snd (table_rows t'))"
    by simp
  with p obtain y m d where
    "strptime (birth_date (snd (hd (table_rows t')))) = Inr \<lparr>year = y, month = m, day = d\<rparr>"
    "1950 \<le> y" "y \<le> 2005"
    by blast
  then show ?thesis
    using h d l by blast
qed

end
